theory Spec2Isabelle
  imports Main "HOL-Library.Word" "HOL-Library.Sublist"
begin

unbundle bit_operations_syntax

section \<open>DXE capsule processing (DxeCapsuleProcessLib.c)\<close>

subsection \<open>Base types and constants\<close>

text \<open>
  \<open>UINTN\<close> and \<open>EFI_STATUS\<close> are the 64-bit unsigned machine word of the X64 build,
  \<open>EFI_GUID\<close> is a 128-bit value compared as a whole by \<open>CompareGuid\<close>, and a pointer is a
  64-bit physical address (DXE runs identity mapped).
\<close>

type_synonym UINTN = "64 word"
type_synonym EFI_STATUS = "64 word"
type_synonym EFI_GUID = "128 word"
type_synonym addr = "64 word"

text \<open>
  Modelled from the spec: the status codes \<open>EFI_SUCCESS\<close>, \<open>EFI_INVALID_PARAMETER\<close>,
  \<open>EFI_UNSUPPORTED\<close>, \<open>EFI_NOT_READY\<close>, \<open>EFI_OUT_OF_RESOURCES\<close>, \<open>EFI_VOLUME_CORRUPTED\<close>,
  \<open>EFI_ABORTED\<close> and the macro \<open>EFI_ERROR\<close> are declared in a base header that is not among
  the sources. The spec names them Succeeded, invalid-input, Unsupported, NotReady (Pending),
  ResourceExhausted, VolumeCorrupted and Aborted; the numbers are those of the UEFI base
  definitions (high bit set for an error, \<open>EFI_ERROR\<close> tests the sign).
\<close>

definition MAX_BIT :: "64 word" where
  "MAX_BIT = 0x8000000000000000"

definition ENCODE_ERROR :: "64 word \<Rightarrow> EFI_STATUS" where
  "ENCODE_ERROR StatusCode = MAX_BIT OR StatusCode"

definition EFI_SUCCESS :: EFI_STATUS where
  "EFI_SUCCESS = 0"

definition EFI_INVALID_PARAMETER :: EFI_STATUS where
  "EFI_INVALID_PARAMETER = ENCODE_ERROR 2"

definition EFI_UNSUPPORTED :: EFI_STATUS where
  "EFI_UNSUPPORTED = ENCODE_ERROR 3"

definition EFI_NOT_READY :: EFI_STATUS where
  "EFI_NOT_READY = ENCODE_ERROR 6"

definition EFI_OUT_OF_RESOURCES :: EFI_STATUS where
  "EFI_OUT_OF_RESOURCES = ENCODE_ERROR 9"

definition EFI_VOLUME_CORRUPTED :: EFI_STATUS where
  "EFI_VOLUME_CORRUPTED = ENCODE_ERROR 10"

definition EFI_ABORTED :: EFI_STATUS where
  "EFI_ABORTED = ENCODE_ERROR 21"

definition EFI_ERROR :: "EFI_STATUS \<Rightarrow> bool" where
  "EFI_ERROR StatusCode = (sint StatusCode < 0)"

text \<open>
  Modelled from the spec: the capsule flag the spec calls PersistAcrossReset
  (\<open>CAPSULE_FLAGS_POPULATE_SYSTEM_TABLE\<close>) and the two HOB type tags are constants of
  headers that are not among the sources; the values are those of the UEFI and PI
  specifications.
\<close>

definition CAPSULE_FLAGS_POPULATE_SYSTEM_TABLE :: "32 word" where
  "CAPSULE_FLAGS_POPULATE_SYSTEM_TABLE = 0x00020000"

definition EFI_HOB_TYPE_UEFI_CAPSULE :: "16 word" where
  "EFI_HOB_TYPE_UEFI_CAPSULE = 0x000B"

definition EFI_HOB_TYPE_UNUSED :: "16 word" where
  "EFI_HOB_TYPE_UNUSED = 0xFFFE"

subsection \<open>Data\<close>

record EFI_CAPSULE_HEADER =
  CapsuleGuid :: EFI_GUID
  HeaderSize :: "32 word"
  Flags :: "32 word"
  CapsuleImageSize :: "32 word"

text \<open>One entry of the hand-off list; only the fields this file reads.\<close>

record EFI_HOB =
  HobType :: "16 word"
  BaseAddress :: addr
  Length :: "64 word"

text \<open>\<open>EFI_CAPSULE_TABLE\<close>: \<open>{CapsuleArrayNumber, CapsulePtr[CapsuleArrayNumber]}\<close>.\<close>

record EFI_CAPSULE_TABLE =
  CapsuleArrayNumber :: "32 word"
  CapsulePtr :: "addr list"

record EDKII_FIRMWARE_MANAGEMENT_PROGRESS_PROTOCOL =
  Version :: "32 word"
  ProgressBarForegroundColor :: "32 word"
  WatchdogSeconds :: UINTN

datatype EFI_RESET_TYPE = EfiResetCold | EfiResetWarm | EfiResetShutdown | EfiResetPlatformSpecific

text \<open>
  The log of what the code did to the outside, in order: every call of an external
  service, and every store into \<open>mCapsuleStatusArray\<close> (index, value before, value stored).
  An allocation is logged with its size and whether a buffer came back.
  For \<open>ProcessThisCapsuleImage\<close> the entry holds the index the dispatcher was at, the
  pointer passed, whether \<open>ResetRequired\<close> was passed (not \<open>NULL\<close>), the status returned
  and the value left in \<open>ResetRequired\<close>.
\<close>

datatype event =
    Call_AllocatePool nat bool
  | Call_SetWatchdogTimer UINTN
  | Call_DisplayUpdateProgress UINTN "32 word option"
  | Call_ProcessThisCapsuleImage nat addr bool EFI_STATUS bool
  | Call_InstallConfigurationTable EFI_GUID EFI_CAPSULE_TABLE EFI_STATUS
  | Call_SyncEsrtFmp
  | Call_ResetSystemWithSubtype EFI_RESET_TYPE EFI_GUID
  | Store_CapsuleStatus nat EFI_STATUS EFI_STATUS

text \<open>
  What the file calls but does not define: memory as read through a capsule pointer, the
  GUID and PCD constants, and the external services. A service that depends on or changes
  the platform takes the platform state \<open>'w\<close> and returns the new one; the two validators
  read only the capsule they are given. \<open>ProcessThisCapsuleImage\<close> is told whether
  \<open>ResetRequired\<close> is passed and returns the status, the value left in \<open>ResetRequired\<close>
  (the caller stored \<open>FALSE\<close> before the call) and the new platform state.
  \<open>AllocatePool\<close> stands for \<open>AllocateZeroPool\<close> and \<open>AllocateRuntimePool\<close>: given the size it
  says whether a buffer was returned.
\<close>

record 'w env =
  Memory :: "addr \<Rightarrow> EFI_CAPSULE_HEADER"
  gWindowsUxCapsuleGuid :: EFI_GUID
  gCapsuleUpdateCompleteResetGuid :: EFI_GUID
  PcdSystemRebootAfterCapsuleProcessFlag :: "16 word"
  PcdCapsuleUpdateWatchdogTimeInSeconds :: "8 word"
  IsValidCapsuleHeader :: "addr \<Rightarrow> 64 word \<Rightarrow> bool"
  IsFmpCapsule :: "addr \<Rightarrow> bool"
  ValidateFmpCapsule :: "addr \<Rightarrow> EFI_STATUS \<times> 16 word"
  ProcessThisCapsuleImage :: "'w \<Rightarrow> addr \<Rightarrow> bool \<Rightarrow> EFI_STATUS \<times> bool \<times> 'w"
  AllocatePool :: "'w \<Rightarrow> nat \<Rightarrow> bool \<times> 'w"
  InstallConfigurationTable :: "'w \<Rightarrow> EFI_GUID \<Rightarrow> EFI_CAPSULE_TABLE \<Rightarrow> EFI_STATUS \<times> 'w"
  LocateEsrtManagement :: "'w \<Rightarrow> EFI_STATUS"
  SyncEsrtFmp :: "'w \<Rightarrow> 'w"
  SetWatchdogTimer :: "'w \<Rightarrow> UINTN \<Rightarrow> 'w"
  DisplayUpdateProgress :: "'w \<Rightarrow> UINTN \<Rightarrow> 32 word option \<Rightarrow> EFI_STATUS \<times> 'w"
  ResetSystemWithSubtype :: "'w \<Rightarrow> EFI_RESET_TYPE \<Rightarrow> EFI_GUID \<Rightarrow> 'w"

text \<open>The globals of the file, the hand-off list, the platform state and the log.\<close>

record 'w state =
  mFmpProgress :: "EDKII_FIRMWARE_MANAGEMENT_PROGRESS_PROTOCOL option"
  mNeedReset :: bool
  mCapsulePtr :: "addr list"
  mCapsuleStatusArray :: "EFI_STATUS list"
  mCapsuleTotalNumber :: "32 word"
  HobList :: "EFI_HOB list"
  world :: 'w
  calls :: "event list"

subsection \<open>Progress reporting\<close>

definition gBS_SetWatchdogTimer :: "'w env \<Rightarrow> UINTN \<Rightarrow> 'w state \<Rightarrow> 'w state" where
  "gBS_SetWatchdogTimer env Timeout st =
     st\<lparr>world := SetWatchdogTimer env (world st) Timeout,
        calls := calls st @ [Call_SetWatchdogTimer Timeout]\<rparr>"

definition call_DisplayUpdateProgress ::
  "'w env \<Rightarrow> UINTN \<Rightarrow> 32 word option \<Rightarrow> 'w state \<Rightarrow> EFI_STATUS \<times> 'w state" where
  "call_DisplayUpdateProgress env Completion Color st =
     (let (Status, w) = DisplayUpdateProgress env (world st) Completion Color
      in (Status, st\<lparr>world := w,
                      calls := calls st @ [Call_DisplayUpdateProgress Completion Color]\<rparr>))"


definition Update_Image_Progress :: "'w env \<Rightarrow> UINTN \<Rightarrow> 'w state \<Rightarrow> EFI_STATUS \<times> 'w state" where
  "Update_Image_Progress env Completion0 st =
     (let Color = (ucast (drop_bit 8 Completion0 AND 0xFFFFFF) :: 32 word);
          Completion = Completion0 AND 0xFF
      in if Completion > 100 then (EFI_INVALID_PARAMETER, st)
         else
           let st1 = gBS_SetWatchdogTimer env 0 st;
               st2 = (if Completion \<noteq> 100
                      then gBS_SetWatchdogTimer env
                             (ucast (PcdCapsuleUpdateWatchdogTimeInSeconds env)) st1
                      else st1)
           in call_DisplayUpdateProgress env Completion (Some Color) st2)"

subsection \<open>Discovery\<close>

definition call_AllocatePool :: "'w env \<Rightarrow> nat \<Rightarrow> 'w state \<Rightarrow> bool \<times> 'w state" where
  "call_AllocatePool env Size st =
     (let (ok, w) = AllocatePool env (world st) Size
      in (ok, st\<lparr>world := w, calls := calls st @ [Call_AllocatePool Size ok]\<rparr>))"

text \<open>
  The first loop of \<open>InitCapsulePtr\<close>: every capsule entry of the hand-off list whose header
  is not valid is retagged unused, every other one is counted.
\<close>

fun InitCapsulePtr_count :: "'w env \<Rightarrow> EFI_HOB list \<Rightarrow> 32 word \<Rightarrow> EFI_HOB list \<times> 32 word" where
  "InitCapsulePtr_count env [] n = ([], n)"
| "InitCapsulePtr_count env (h # hs) n =
     (if HobType h = EFI_HOB_TYPE_UEFI_CAPSULE then
        (if \<not> IsValidCapsuleHeader env (BaseAddress h) (Length h)
         then (let (hs', n') = InitCapsulePtr_count env hs n
               in (h\<lparr>HobType := EFI_HOB_TYPE_UNUSED\<rparr> # hs', n'))
         else (let (hs', n') = InitCapsulePtr_count env hs (n + 1)
               in (h # hs', n')))
      else (let (hs', n') = InitCapsulePtr_count env hs n in (h # hs', n')))"

text \<open>
  The second loop: \<open>mCapsulePtr [Index++] = BaseAddress\<close> for every capsule entry left.
  \<open>Index\<close> stays below the count unless the 32-bit count wrapped around in the first loop;
  a store past the end of the array, which the source would write behind the buffer, is
  dropped here.
\<close>

fun InitCapsulePtr_fill :: "EFI_HOB list \<Rightarrow> nat \<Rightarrow> addr list \<Rightarrow> addr list" where
  "InitCapsulePtr_fill [] Index ptrs = ptrs"
| "InitCapsulePtr_fill (h # hs) Index ptrs =
     (if HobType h = EFI_HOB_TYPE_UEFI_CAPSULE
      then InitCapsulePtr_fill hs (Index + 1) (ptrs[Index := BaseAddress h])
      else InitCapsulePtr_fill hs Index ptrs)"

text \<open>
  \<open>InitCapsulePtr\<close> returns nothing: a failed allocation sets the count to 0 and leaves the
  pointer \<open>NULL\<close> (the empty array here).
\<close>

definition InitCapsulePtr :: "'w env \<Rightarrow> 'w state \<Rightarrow> 'w state" where
  "InitCapsulePtr env st =
     (let (hobs, n) = InitCapsulePtr_count env (HobList st) (mCapsuleTotalNumber st);
          st1 = st\<lparr>HobList := hobs, mCapsuleTotalNumber := n\<rparr>
      in if n = 0 then st1
         else
           let (ok1, st2) = call_AllocatePool env (8 * unat n) st1
           in if \<not> ok1 then st2\<lparr>mCapsulePtr := [], mCapsuleTotalNumber := 0\<rparr>
              else
                let (ok2, st3) = call_AllocatePool env (8 * unat n) st2
                in if \<not> ok2
                   then st3\<lparr>mCapsulePtr := [], mCapsuleStatusArray := [],
                            mCapsuleTotalNumber := 0\<rparr>
                   else st3\<lparr>mCapsuleStatusArray := replicate (unat n) EFI_NOT_READY,
                            mCapsulePtr := InitCapsulePtr_fill hobs 0 (replicate (unat n) 0)\<rparr>)"

subsection \<open>Status tracking\<close>

function AreAllImagesProcessed_from :: "'w state \<Rightarrow> nat \<Rightarrow> bool" where
  "AreAllImagesProcessed_from st Index =
     (if Index < unat (mCapsuleTotalNumber st)
      then (if mCapsuleStatusArray st ! Index = EFI_NOT_READY then False
            else AreAllImagesProcessed_from st (Index + 1))
      else True)"
  by pat_completeness auto
termination
  by (relation "measure (\<lambda>(st, Index). unat (mCapsuleTotalNumber st) - Index)") auto

definition AreAllImagesProcessed :: "'w state \<Rightarrow> bool" where
  "AreAllImagesProcessed st = AreAllImagesProcessed_from st 0"

text \<open>A store into \<open>mCapsuleStatusArray [Index]\<close>, logged with the value it replaces.\<close>

definition set_CapsuleStatus :: "nat \<Rightarrow> EFI_STATUS \<Rightarrow> 'w state \<Rightarrow> 'w state" where
  "set_CapsuleStatus Index Status st =
     st\<lparr>mCapsuleStatusArray := (mCapsuleStatusArray st)[Index := Status],
        calls := calls st @ [Store_CapsuleStatus Index (mCapsuleStatusArray st ! Index) Status]\<rparr>"

subsection \<open>Publishing\<close>

text \<open>The inner \<open>while\<close> of the first step: the index of the GUID in the cache, or the cache's size.\<close>

function Populate_find :: "EFI_GUID list \<Rightarrow> EFI_GUID \<Rightarrow> nat \<Rightarrow> nat" where
  "Populate_find CapsuleGuidCache g CacheIndex =
     (if CacheIndex < length CapsuleGuidCache
      then (if CapsuleGuidCache ! CacheIndex = g then CacheIndex
            else Populate_find CapsuleGuidCache g (CacheIndex + 1))
      else CacheIndex)"
  by pat_completeness auto
termination
  by (relation "measure (\<lambda>(c, g, i). length c - i)") auto

text \<open>The first step: the distinct GUIDs of the flagged capsules, in first-seen order.\<close>

function Populate_guids :: "'w env \<Rightarrow> 'w state \<Rightarrow> nat \<Rightarrow> EFI_GUID list \<Rightarrow> EFI_GUID list" where
  "Populate_guids env st Index CapsuleGuidCache =
     (if Index < unat (mCapsuleTotalNumber st) then
        (let CapsuleHeader = Memory env (mCapsulePtr st ! Index)
         in if Flags CapsuleHeader AND CAPSULE_FLAGS_POPULATE_SYSTEM_TABLE \<noteq> 0 then
              (let CacheIndex = Populate_find CapsuleGuidCache (CapsuleGuid CapsuleHeader) 0
               in if CacheIndex = length CapsuleGuidCache
                  then Populate_guids env st (Index + 1)
                         (CapsuleGuidCache @ [CapsuleGuid CapsuleHeader])
                  else Populate_guids env st (Index + 1) CapsuleGuidCache)
            else Populate_guids env st (Index + 1) CapsuleGuidCache)
      else CapsuleGuidCache)"
  by pat_completeness auto
termination
  by (relation "measure (\<lambda>(env, st, i, c). unat (mCapsuleTotalNumber st) - i)") auto

text \<open>The inner loop of the second step: the flagged capsules of one GUID, in array order.\<close>

function Populate_gather :: "'w env \<Rightarrow> 'w state \<Rightarrow> EFI_GUID \<Rightarrow> nat \<Rightarrow> addr list \<Rightarrow> addr list" where
  "Populate_gather env st g Index CapsulePtrCache =
     (if Index < unat (mCapsuleTotalNumber st) then
        (let CapsuleHeader = Memory env (mCapsulePtr st ! Index)
         in if Flags CapsuleHeader AND CAPSULE_FLAGS_POPULATE_SYSTEM_TABLE \<noteq> 0
               \<and> g = CapsuleGuid CapsuleHeader
            then Populate_gather env st g (Index + 1)
                   (CapsulePtrCache @ [mCapsulePtr st ! Index])
            else Populate_gather env st g (Index + 1) CapsulePtrCache)
      else CapsulePtrCache)"
  by pat_completeness auto
termination
  by (relation "measure (\<lambda>(env, st, g, i, c). unat (mCapsuleTotalNumber st) - i)") auto

text \<open>The second step, one round per cached GUID.\<close>

fun Populate_install :: "'w env \<Rightarrow> EFI_GUID list \<Rightarrow> 'w state \<Rightarrow> 'w state" where
  "Populate_install env [] st = st"
| "Populate_install env (g # gs) st =
     (let CapsulePtrCache = Populate_gather env st g 0 [];
          CapsuleNumber = length CapsulePtrCache
      in if CapsuleNumber \<noteq> 0 then
           (let (ok, st1) = call_AllocatePool env (16 + (CapsuleNumber - 1) * 8) st
            in if \<not> ok then Populate_install env gs st1
               else
                 let CapsuleTable = \<lparr>CapsuleArrayNumber = of_nat CapsuleNumber,
                                     CapsulePtr = CapsulePtrCache\<rparr>;
                     (Status, w) = InstallConfigurationTable env (world st1) g CapsuleTable
                 in Populate_install env gs
                      (st1\<lparr>world := w,
                           calls := calls st1 @
                             [Call_InstallConfigurationTable g CapsuleTable Status]\<rparr>))
         else Populate_install env gs st)"

definition PopulateCapsuleInConfigurationTable :: "'w env \<Rightarrow> 'w state \<Rightarrow> 'w state" where
  "PopulateCapsuleInConfigurationTable env st =
     (if mCapsuleTotalNumber st = 0 then st
      else
        let (ok1, st1) = call_AllocatePool env (8 * unat (mCapsuleTotalNumber st)) st
        in if \<not> ok1 then st1
           else
             let (ok2, st2) = call_AllocatePool env (16 * unat (mCapsuleTotalNumber st)) st1
             in if \<not> ok2 then st2
                else Populate_install env (Populate_guids env st2 0 []) st2)"

subsection \<open>The dispatcher\<close>

text \<open>The first loop of \<open>ProcessTheseCapsules\<close>: the display capsule, first match only.\<close>

function ProcessTheseCapsules_ux :: "'w env \<Rightarrow> nat \<Rightarrow> 'w state \<Rightarrow> 'w state" where
  "ProcessTheseCapsules_ux env Index st =
     (if Index < unat (mCapsuleTotalNumber st) then
        (let CapsuleHeader = mCapsulePtr st ! Index
         in if CapsuleGuid (Memory env CapsuleHeader) = gWindowsUxCapsuleGuid env then
              (let (Status, ResetRequired, w) =
                     ProcessThisCapsuleImage env (world st) CapsuleHeader False;
                   st1 = st\<lparr>world := w,
                            calls := calls st @
                              [Call_ProcessThisCapsuleImage Index CapsuleHeader False Status False]\<rparr>
               in set_CapsuleStatus Index EFI_SUCCESS st1)
            else ProcessTheseCapsules_ux env (Index + 1) st)
      else st)"
  by pat_completeness auto
termination
  by (relation "measure (\<lambda>(env, i, st). unat (mCapsuleTotalNumber st) - i)") auto

text \<open>One round of the second loop of \<open>ProcessTheseCapsules\<close>.\<close>

definition ProcessTheseCapsules_body :: "'w env \<Rightarrow> bool \<Rightarrow> nat \<Rightarrow> 'w state \<Rightarrow> 'w state" where
  "ProcessTheseCapsules_body env FirstRound Index st =
     (if mCapsuleStatusArray st ! Index \<noteq> EFI_NOT_READY then st
      else
        let CapsuleHeader = mCapsulePtr st ! Index
        in if CapsuleGuid (Memory env CapsuleHeader) \<noteq> gWindowsUxCapsuleGuid env then
             (if IsFmpCapsule env CapsuleHeader then
                (let (Status, EmbeddedDriverCount) = ValidateFmpCapsule env CapsuleHeader
                 in if EFI_ERROR Status then set_CapsuleStatus Index EFI_ABORTED st
                    else if (\<not> FirstRound) \<or> EmbeddedDriverCount = 0 then
                      (let (Status, ResetRequired, w) =
                             ProcessThisCapsuleImage env (world st) CapsuleHeader True;
                           st1 = st\<lparr>world := w,
                                    calls := calls st @
                                      [Call_ProcessThisCapsuleImage Index CapsuleHeader True
                                         Status ResetRequired]\<rparr>;
                           st2 = set_CapsuleStatus Index Status st1
                       in if Status \<noteq> EFI_NOT_READY then
                            (let st3 = st2\<lparr>mNeedReset := (mNeedReset st2 \<or> ResetRequired)\<rparr>
                             in if Flags (Memory env CapsuleHeader)
                                     AND ucast (PcdSystemRebootAfterCapsuleProcessFlag env) \<noteq> 0
                                then st3\<lparr>mNeedReset := True\<rparr>
                                else st3)
                          else st2)
                    else st)
              else set_CapsuleStatus Index EFI_ABORTED st)
           else st)"

function ProcessTheseCapsules_sweep :: "'w env \<Rightarrow> bool \<Rightarrow> nat \<Rightarrow> 'w state \<Rightarrow> 'w state" where
  "ProcessTheseCapsules_sweep env FirstRound Index st =
     (if Index < unat (mCapsuleTotalNumber st)
      then ProcessTheseCapsules_sweep env FirstRound (Index + 1)
             (ProcessTheseCapsules_body env FirstRound Index st)
      else st)"
  by pat_completeness auto
termination
  by (relation "measure (\<lambda>(env, fr, i, st). unat (mCapsuleTotalNumber st) - i)")
     (auto simp: ProcessTheseCapsules_body_def set_CapsuleStatus_def Let_def split: prod.splits)

text \<open>The end of \<open>ProcessTheseCapsules\<close>: the ESRT cache is synchronised when the protocol is there.\<close>

definition ProcessTheseCapsules_sync :: "'w env \<Rightarrow> 'w state \<Rightarrow> 'w state" where
  "ProcessTheseCapsules_sync env st =
     (let Status = LocateEsrtManagement env (world st)
      in if \<not> EFI_ERROR Status
         then st\<lparr>world := SyncEsrtFmp env (world st), calls := calls st @ [Call_SyncEsrtFmp]\<rparr>
         else st)"

definition ProcessTheseCapsules :: "'w env \<Rightarrow> bool \<Rightarrow> 'w state \<Rightarrow> EFI_STATUS \<times> 'w state" where
  "ProcessTheseCapsules env FirstRound st =
     (let st1 = (if FirstRound then InitCapsulePtr env st else st)
      in if mCapsuleTotalNumber st1 = 0 then (EFI_SUCCESS, st1)
         else if AreAllImagesProcessed st1 then (EFI_SUCCESS, st1)
         else
           let st2 = (if FirstRound then PopulateCapsuleInConfigurationTable env st1 else st1);
               st3 = ProcessTheseCapsules_ux env 0 st2;
               st4 = ProcessTheseCapsules_sweep env FirstRound 0 st3;
               st5 = ProcessTheseCapsules_sync env st4;
               Status = EFI_SUCCESS
           in (Status, st5))"

subsection \<open>Reset and the driving routine\<close>

text \<open>
  \<open>DoResetSystem\<close> requests the reset and then spins in \<open>CpuDeadLoop\<close>: it never returns.
  The state it is given back here is the one in which control is lost.
\<close>

definition DoResetSystem :: "'w env \<Rightarrow> 'w state \<Rightarrow> 'w state" where
  "DoResetSystem env st =
     st\<lparr>world := ResetSystemWithSubtype env (world st) EfiResetCold
                     (gCapsuleUpdateCompleteResetGuid env),
        calls := calls st @
          [Call_ResetSystemWithSubtype EfiResetCold (gCapsuleUpdateCompleteResetGuid env)]\<rparr>"

text \<open>\<open>ProcessCapsules\<close>: \<open>Some Status\<close> when it returns, \<open>None\<close> when control never comes back.\<close>

definition ProcessCapsules :: "'w env \<Rightarrow> 'w state \<Rightarrow> EFI_STATUS option \<times> 'w state" where
  "ProcessCapsules env st =
     (let (Status, st1) = ProcessTheseCapsules env True st
      in if mNeedReset st1 then (None, DoResetSystem env st1)
         else (Some Status, st1))"

subsection \<open>Reading the state and the log\<close>

text \<open>
  The arrays hold at least \<open>mCapsuleTotalNumber\<close> entries, so every \<open>[Index]\<close> of the loops
  is in range. Discovery establishes this and no function of the file breaks it.
\<close>

definition arrays_ok :: "'w state \<Rightarrow> bool" where
  "arrays_ok st =
     (unat (mCapsuleTotalNumber st) \<le> length (mCapsulePtr st) \<and>
      unat (mCapsuleTotalNumber st) \<le> length (mCapsuleStatusArray st))"

text \<open>What was logged between an earlier state and a later one.\<close>

definition new_calls :: "'w state \<Rightarrow> 'w state \<Rightarrow> event list" where
  "new_calls st st' = drop (length (calls st)) (calls st')"

text \<open>The capsule index a log entry is about, if any.\<close>

fun ev_index :: "event \<Rightarrow> nat option" where
  "ev_index (Call_ProcessThisCapsuleImage i a b s r) = Some i"
| "ev_index (Store_CapsuleStatus i old new) = Some i"
| "ev_index e = None"

definition events_of :: "nat \<Rightarrow> event list \<Rightarrow> event list" where
  "events_of j evs = filter (\<lambda>e. ev_index e = Some j) evs"

text \<open>The apply delegate was called for capsule \<open>j\<close>.\<close>

fun is_apply :: "nat \<Rightarrow> event \<Rightarrow> bool" where
  "is_apply j (Call_ProcessThisCapsuleImage i a b s r) = (i = j)"
| "is_apply j e = False"

definition applied :: "nat \<Rightarrow> event list \<Rightarrow> bool" where
  "applied j evs = (filter (is_apply j) evs \<noteq> [])"

text \<open>The call made for the display capsule: the one that passes no \<open>ResetRequired\<close>.\<close>

fun is_ux_apply :: "event \<Rightarrow> bool" where
  "is_ux_apply (Call_ProcessThisCapsuleImage i a b s r) = (\<not> b)"
| "is_ux_apply e = False"


fun changes_terminal :: "event \<Rightarrow> bool" where
  "changes_terminal (Store_CapsuleStatus i old new) = (old \<noteq> EFI_NOT_READY \<and> new \<noteq> old)"
| "changes_terminal e = False"

text \<open>The capsule behind a pointer carries the reboot-after-processing flag.\<close>

definition AlwaysReset :: "'w env \<Rightarrow> addr \<Rightarrow> bool" where
  "AlwaysReset env a =
     (Flags (Memory env a) AND ucast (PcdSystemRebootAfterCapsuleProcessFlag env) \<noteq> 0)"

text \<open>
  A log entry that raises \<open>mNeedReset\<close>: an apply of the general sweep with a terminal
  outcome that asked for a reset or whose capsule carries the flag.
\<close>

fun reset_cause :: "'w env \<Rightarrow> event \<Rightarrow> bool" where
  "reset_cause env (Call_ProcessThisCapsuleImage i a b s r) =
     (b \<and> s \<noteq> EFI_NOT_READY \<and> (r \<or> AlwaysReset env a))"
| "reset_cause env e = False"

text \<open>The capsule at index \<open>j\<close> carries the display key, and the first index that does.\<close>

definition is_ux :: "'w env \<Rightarrow> 'w state \<Rightarrow> nat \<Rightarrow> bool" where
  "is_ux env st j = (CapsuleGuid (Memory env (mCapsulePtr st ! j)) = gWindowsUxCapsuleGuid env)"

definition first_ux :: "'w env \<Rightarrow> 'w state \<Rightarrow> nat option" where
  "first_ux env st = find (is_ux env st) [0 ..< unat (mCapsuleTotalNumber st)]"



text \<open>An allocation that returned no buffer.\<close>

fun is_failed_alloc :: "event \<Rightarrow> bool" where
  "is_failed_alloc (Call_AllocatePool sz ok) = (\<not> ok)"
| "is_failed_alloc e = False"

definition alloc_failed :: "event list \<Rightarrow> bool" where
  "alloc_failed evs = (filter is_failed_alloc evs \<noteq> [])"

text \<open>Steps that only log calls about no capsule index.\<close>

definition admin :: "event list \<Rightarrow> bool" where
  "admin evs = list_all (\<lambda>e. ev_index e = None) evs"

text \<open>The state the general sweep starts from, given the state after discovery.\<close>

definition before_sweep :: "'w env \<Rightarrow> bool \<Rightarrow> 'w state \<Rightarrow> 'w state" where
  "before_sweep env fr st1 =
     ProcessTheseCapsules_ux env 0
       (if fr then PopulateCapsuleInConfigurationTable env st1 else st1)"





text \<open>
  What the publishing step is to produce, stated on the capsule array alone: the capsules
  with \<open>CAPSULE_FLAGS_POPULATE_SYSTEM_TABLE\<close>, the GUID of a capsule, the distinct GUIDs of
  the flagged capsules in the order they are first seen, the flagged capsules of one GUID in
  array order, and the \<open>EFI_CAPSULE_TABLE\<close> of one GUID.
\<close>

definition flagged :: "'w env \<Rightarrow> 'w state \<Rightarrow> nat \<Rightarrow> bool" where
  "flagged env st k =
     (Flags (Memory env (mCapsulePtr st ! k)) AND CAPSULE_FLAGS_POPULATE_SYSTEM_TABLE \<noteq> 0)"

definition identity :: "'w env \<Rightarrow> 'w state \<Rightarrow> nat \<Rightarrow> EFI_GUID" where
  "identity env st k = CapsuleGuid (Memory env (mCapsulePtr st ! k))"

definition first_seen :: "'a list \<Rightarrow> 'a list \<Rightarrow> 'a list" where
  "first_seen cache xs = foldl (\<lambda>c x. if x \<in> set c then c else c @ [x]) cache xs"

definition persist_identities :: "'w env \<Rightarrow> 'w state \<Rightarrow> EFI_GUID list" where
  "persist_identities env st =
     first_seen []
       (map (identity env st) (filter (flagged env st) [0 ..< unat (mCapsuleTotalNumber st)]))"

definition persist_group :: "'w env \<Rightarrow> 'w state \<Rightarrow> EFI_GUID \<Rightarrow> addr list" where
  "persist_group env st g =
     map (\<lambda>k. mCapsulePtr st ! k)
       (filter (\<lambda>k. flagged env st k \<and> identity env st k = g)
          [0 ..< unat (mCapsuleTotalNumber st)])"

definition table_of :: "'w env \<Rightarrow> 'w state \<Rightarrow> EFI_GUID \<Rightarrow> EFI_CAPSULE_TABLE" where
  "table_of env st g =
     \<lparr>CapsuleArrayNumber = of_nat (length (persist_group env st g)),
      CapsulePtr = persist_group env st g\<rparr>"

text \<open>
  What the log holds for one GUID: the allocation of its table,
  \<open>sizeof (EFI_CAPSULE_TABLE) + (CapsuleNumber - 1) * sizeof (VOID *)\<close> bytes, with its
  outcome, then the registration with its status when the allocation returned a buffer.
\<close>

definition entry :: "'w env \<Rightarrow> 'w state \<Rightarrow> EFI_GUID \<Rightarrow> bool \<times> EFI_STATUS \<Rightarrow> event list" where
  "entry env st g out =
     Call_AllocatePool (16 + (length (persist_group env st g) - 1) * 8) (fst out) #
     (if fst out then [Call_InstallConfigurationTable g (table_of env st g) (snd out)] else [])"


text \<open>
  The log against the platform. \<open>perform\<close> is what a logged call does to the platform
  state, and \<open>genuine\<close> says that the result logged with a call is the one the service
  returns in that state (an allocation's outcome, the status and the reset request of an
  apply, the status of a registration; a call made without \<open>ResetRequired\<close> logs no reset
  request). \<open>replay\<close> performs a log from a platform state, and a log is \<open>faithful\<close> from a
  platform state when every entry is genuine in the state the entries before it lead to.
\<close>

fun perform :: "'w env \<Rightarrow> 'w \<Rightarrow> event \<Rightarrow> 'w" where
  "perform env w (Call_AllocatePool sz ok) = snd (AllocatePool env w sz)"
| "perform env w (Call_SetWatchdogTimer t) = SetWatchdogTimer env w t"
| "perform env w (Call_DisplayUpdateProgress c col) = snd (DisplayUpdateProgress env w c col)"
| "perform env w (Call_ProcessThisCapsuleImage i a b s r) =
     snd (snd (ProcessThisCapsuleImage env w a b))"
| "perform env w (Call_InstallConfigurationTable g t s) =
     snd (InstallConfigurationTable env w g t)"
| "perform env w Call_SyncEsrtFmp = SyncEsrtFmp env w"
| "perform env w (Call_ResetSystemWithSubtype t g) = ResetSystemWithSubtype env w t g"
| "perform env w (Store_CapsuleStatus i old new) = w"

fun genuine :: "'w env \<Rightarrow> 'w \<Rightarrow> event \<Rightarrow> bool" where
  "genuine env w (Call_AllocatePool sz ok) = (ok = fst (AllocatePool env w sz))"
| "genuine env w (Call_ProcessThisCapsuleImage i a b s r) =
     (s = fst (ProcessThisCapsuleImage env w a b) \<and>
      r = (b \<and> fst (snd (ProcessThisCapsuleImage env w a b))))"
| "genuine env w (Call_InstallConfigurationTable g t s) =
     (s = fst (InstallConfigurationTable env w g t))"
| "genuine env w e = True"

fun replay :: "'w env \<Rightarrow> 'w \<Rightarrow> event list \<Rightarrow> 'w" where
  "replay env w [] = w"
| "replay env w (e # es) = replay env (perform env w e) es"

fun faithful :: "'w env \<Rightarrow> 'w \<Rightarrow> event list \<Rightarrow> bool" where
  "faithful env w [] = True"
| "faithful env w (e # es) = (genuine env w e \<and> faithful env (perform env w e) es)"

text \<open>
  From \<open>st\<close> to \<open>st'\<close> the log grew by a faithful record of calls, and these calls, made
  from the platform state of \<open>st\<close>, give the platform state of \<open>st'\<close>.
\<close>

definition traced :: "'w env \<Rightarrow> 'w state \<Rightarrow> 'w state \<Rightarrow> bool" where
  "traced env st st' =
     (prefix (calls st) (calls st') \<and> faithful env (world st) (new_calls st st') \<and>
      world st' = replay env (world st) (new_calls st st'))"

text \<open>
  What the apply delegate returns for capsule \<open>j\<close>, called with \<open>ResetRequired\<close>, in the
  platform state reached by the calls logged between \<open>a\<close> and \<open>b\<close> before the first apply
  for \<open>j\<close>.
\<close>

definition apply_result :: "'w env \<Rightarrow> 'w state \<Rightarrow> 'w state \<Rightarrow> nat \<Rightarrow> EFI_STATUS \<times> bool \<times> 'w" where
  "apply_result env a b j =
     ProcessThisCapsuleImage env
       (replay env (world a) (takeWhile (\<lambda>e. \<not> is_apply j e) (new_calls a b)))
       (mCapsulePtr a ! j) True"

subsection \<open>Concrete scenarios\<close>

text \<open>
  A platform to run the functions on: each capsule of a scenario gives its address, its
  header, what the firmware-management probe and the layout validator say about it, and
  what applying it returns (status and reset request). Headers with a null address are
  not valid. The platform state counts the allocations made so far; the allocations
  whose ordinal is listed fail. The display delegate refuses a call without a color.
\<close>

record capsule_case =
  at :: addr
  header :: EFI_CAPSULE_HEADER
  fmp :: bool
  layout :: "EFI_STATUS \<times> 16 word"
  outcome :: "EFI_STATUS \<times> bool"

definition no_capsule :: capsule_case where
  "no_capsule = \<lparr>at = 0,
     header = \<lparr>CapsuleGuid = 0, HeaderSize = 0, Flags = 0, CapsuleImageSize = 0\<rparr>,
     fmp = False, layout = (EFI_INVALID_PARAMETER, 0), outcome = (EFI_UNSUPPORTED, False)\<rparr>"

definition case_at :: "capsule_case list \<Rightarrow> addr \<Rightarrow> capsule_case" where
  "case_at cs a = (case find (\<lambda>c. at c = a) cs of None \<Rightarrow> no_capsule | Some c \<Rightarrow> c)"

definition ux_guid :: EFI_GUID where
  "ux_guid = 0x3B8C8162188C46A4AEC9BE43F1D65697"

definition scenario :: "capsule_case list \<Rightarrow> nat list \<Rightarrow> nat env" where
  "scenario cs failing =
     \<lparr>Memory = (\<lambda>a. header (case_at cs a)),
      gWindowsUxCapsuleGuid = ux_guid,
      gCapsuleUpdateCompleteResetGuid = 0x5D512714A4DF4E46B6C7BBC1D6C7B2B2,
      PcdSystemRebootAfterCapsuleProcessFlag = 0x0001,
      PcdCapsuleUpdateWatchdogTimeInSeconds = 60,
      IsValidCapsuleHeader = (\<lambda>a len. a \<noteq> 0),
      IsFmpCapsule = (\<lambda>a. fmp (case_at cs a)),
      ValidateFmpCapsule = (\<lambda>a. layout (case_at cs a)),
      ProcessThisCapsuleImage = (\<lambda>w a rr. (fst (outcome (case_at cs a)),
                                               rr \<and> snd (outcome (case_at cs a)), w)),
      AllocatePool = (\<lambda>w sz. (w \<notin> set failing, Suc w)),
      InstallConfigurationTable = (\<lambda>w g t. (EFI_SUCCESS, w)),
      LocateEsrtManagement = (\<lambda>w. EFI_SUCCESS),
      SyncEsrtFmp = (\<lambda>w. w),
      SetWatchdogTimer = (\<lambda>w t. w),
      DisplayUpdateProgress = (\<lambda>w c col. (if col = None then EFI_UNSUPPORTED else EFI_SUCCESS, w)),
      ResetSystemWithSubtype = (\<lambda>w t g. w)\<rparr>"

text \<open>The state at entry to the DXE phase: nothing discovered yet, the given hand-off list.\<close>

definition boot_state :: "EFI_HOB list \<Rightarrow> EDKII_FIRMWARE_MANAGEMENT_PROGRESS_PROTOCOL option \<Rightarrow> nat state" where
  "boot_state hobs progress =
     \<lparr>mFmpProgress = progress, mNeedReset = False, mCapsulePtr = [], mCapsuleStatusArray = [],
      mCapsuleTotalNumber = 0, HobList = hobs, world = 0, calls = []\<rparr>"

definition capsule_hob :: "addr \<Rightarrow> EFI_HOB" where
  "capsule_hob a = \<lparr>HobType = EFI_HOB_TYPE_UEFI_CAPSULE, BaseAddress = a, Length = 0x100\<rparr>"

definition hdr :: "EFI_GUID \<Rightarrow> 32 word \<Rightarrow> EFI_CAPSULE_HEADER" where
  "hdr g f = \<lparr>CapsuleGuid = g, HeaderSize = 28, Flags = f, CapsuleImageSize = 0x100\<rparr>"

text \<open>
  The capsules of the scenarios: a display capsule whose apply fails; a capsule that is
  not a firmware-management capsule, flagged for the system table and for a reboot; a
  firmware-management capsule without embedded drivers whose apply succeeds and asks for
  a reset; one with two embedded drivers whose apply reports a corrupted volume; one whose
  layout is invalid; a second display capsule; one whose apply is not ready; and one that
  applies without asking for a reset.
\<close>

definition cap_ux :: capsule_case where
  "cap_ux = \<lparr>at = 0x1000, header = hdr ux_guid 0, fmp = False,
     layout = (EFI_INVALID_PARAMETER, 0), outcome = (EFI_UNSUPPORTED, False)\<rparr>"

definition cap_plain :: capsule_case where
  "cap_plain = \<lparr>at = 0x2000, header = hdr 0xA1 0x00020001, fmp = False,
     layout = (EFI_INVALID_PARAMETER, 0), outcome = (EFI_SUCCESS, True)\<rparr>"

definition cap_fmp :: capsule_case where
  "cap_fmp = \<lparr>at = 0x3000, header = hdr 0xA1 0x00020000, fmp = True,
     layout = (EFI_SUCCESS, 0), outcome = (EFI_SUCCESS, True)\<rparr>"

definition cap_drv :: capsule_case where
  "cap_drv = \<lparr>at = 0x4000, header = hdr 0xA2 0x00020000, fmp = True,
     layout = (EFI_SUCCESS, 2), outcome = (EFI_VOLUME_CORRUPTED, False)\<rparr>"

definition cap_bad :: capsule_case where
  "cap_bad = \<lparr>at = 0x5000, header = hdr 0xA3 0, fmp = True,
     layout = (EFI_INVALID_PARAMETER, 0), outcome = (EFI_SUCCESS, True)\<rparr>"

definition cap_ux2 :: capsule_case where
  "cap_ux2 = \<lparr>at = 0x6000, header = hdr ux_guid 0, fmp = False,
     layout = (EFI_INVALID_PARAMETER, 0), outcome = (EFI_SUCCESS, False)\<rparr>"

definition cap_busy :: capsule_case where
  "cap_busy = \<lparr>at = 0x7000, header = hdr 0xA4 0x0001, fmp = True,
     layout = (EFI_SUCCESS, 0), outcome = (EFI_NOT_READY, True)\<rparr>"

definition cap_calm :: capsule_case where
  "cap_calm = \<lparr>at = 0x8000, header = hdr 0xA5 0, fmp = True,
     layout = (EFI_SUCCESS, 0), outcome = (EFI_SUCCESS, False)\<rparr>"

definition hobs_of :: "capsule_case list \<Rightarrow> EFI_HOB list" where
  "hobs_of cs = map (\<lambda>c. capsule_hob (at c)) cs"


text \<open>The scenario most of the examples run.\<close>

definition demo_caps :: "capsule_case list" where
  "demo_caps = [cap_ux, cap_plain, cap_fmp, cap_drv, cap_bad]"

definition demo_env :: "nat env" where
  "demo_env = scenario demo_caps []"

definition demo_boot :: "nat state" where
  "demo_boot = boot_state (hobs_of demo_caps) None"

text \<open>
  The same platform with its first allocation failing; a display capsule with a capsule that
  applies without a reset request; a single capsule whose apply asks for a reset.
\<close>

definition starved_env :: "nat env" where
  "starved_env = scenario demo_caps [0]"

definition calm_caps :: "capsule_case list" where
  "calm_caps = [cap_ux, cap_calm]"

definition eager_caps :: "capsule_case list" where
  "eager_caps = [cap_fmp]"


definition twin_ux :: "capsule_case list" where
  "twin_ux = [cap_ux, cap_ux2]"



definition leaky_env :: "nat env" where
  "leaky_env = scenario demo_caps [4]"

text \<open>
  A second capsule with the display key that is a valid firmware-management capsule without
  embedded drivers, and the scenario that has it after a display capsule.
\<close>

definition cap_ux3 :: capsule_case where
  "cap_ux3 = \<lparr>at = 0x9000, header = hdr ux_guid 0, fmp = True,
     layout = (EFI_SUCCESS, 0), outcome = (EFI_SUCCESS, False)\<rparr>"

definition keyed_fmp :: "capsule_case list" where
  "keyed_fmp = [cap_ux, cap_ux3]"

section \<open>Properties\<close>

declare AreAllImagesProcessed_from.simps [simp del]
declare Populate_find.simps [simp del]
declare Populate_guids.simps [simp del]
declare Populate_gather.simps [simp del]
declare ProcessTheseCapsules_ux.simps [simp del]
declare ProcessTheseCapsules_sweep.simps [simp del]

subsection \<open>Status codes\<close>

lemma status_distinct [simp]:
  "EFI_ABORTED \<noteq> EFI_NOT_READY" "EFI_SUCCESS \<noteq> EFI_NOT_READY"
  "EFI_NOT_READY \<noteq> EFI_ABORTED" "EFI_NOT_READY \<noteq> EFI_SUCCESS"
  "EFI_SUCCESS \<noteq> EFI_OUT_OF_RESOURCES" "EFI_SUCCESS \<noteq> EFI_ABORTED"
  "EFI_OUT_OF_RESOURCES \<noteq> EFI_SUCCESS" "EFI_ABORTED \<noteq> EFI_SUCCESS"
  by (simp_all add: EFI_ABORTED_def EFI_NOT_READY_def EFI_SUCCESS_def EFI_OUT_OF_RESOURCES_def
        ENCODE_ERROR_def MAX_BIT_def)

lemma status_error [simp]:
  "\<not> EFI_ERROR EFI_SUCCESS" "EFI_ERROR EFI_NOT_READY" "EFI_ERROR EFI_ABORTED"
  "EFI_ERROR EFI_INVALID_PARAMETER" "EFI_ERROR EFI_UNSUPPORTED"
  by (simp_all add: EFI_ERROR_def EFI_ABORTED_def EFI_NOT_READY_def EFI_SUCCESS_def
        EFI_INVALID_PARAMETER_def EFI_UNSUPPORTED_def ENCODE_ERROR_def MAX_BIT_def)

subsection \<open>Status tracking and the general sweep\<close>

lemma AreAllImagesProcessed_from_step:
  "AreAllImagesProcessed_from st i =
     (if i < unat (mCapsuleTotalNumber st)
      then mCapsuleStatusArray st ! i \<noteq> EFI_NOT_READY \<and> AreAllImagesProcessed_from st (Suc i)
      else True)"
  by (subst AreAllImagesProcessed_from.simps) simp

lemma AreAllImagesProcessed_from_iff:
  "AreAllImagesProcessed_from st i =
     (\<forall>k. i \<le> k \<and> k < unat (mCapsuleTotalNumber st) \<longrightarrow> mCapsuleStatusArray st ! k \<noteq> EFI_NOT_READY)"
proof (induction st i rule: AreAllImagesProcessed_from.induct)
  case (1 st Index)
  show ?case
  proof (cases "Index < unat (mCapsuleTotalNumber st)")
    case False
    then show ?thesis by (subst AreAllImagesProcessed_from_step) auto
  next
    case True
    show ?thesis
    proof (cases "mCapsuleStatusArray st ! Index = EFI_NOT_READY")
      case True
      with \<open>Index < unat (mCapsuleTotalNumber st)\<close> show ?thesis
        by (subst AreAllImagesProcessed_from_step) auto
    next
      case False
      have "AreAllImagesProcessed_from st Index = AreAllImagesProcessed_from st (Suc Index)"
        using True False by (subst AreAllImagesProcessed_from_step) simp
      also have "\<dots> = (\<forall>k. Suc Index \<le> k \<and> k < unat (mCapsuleTotalNumber st) \<longrightarrow> mCapsuleStatusArray st ! k \<noteq> EFI_NOT_READY)"
        using 1 True False by simp
      also have "\<dots> = (\<forall>k. Index \<le> k \<and> k < unat (mCapsuleTotalNumber st) \<longrightarrow> mCapsuleStatusArray st ! k \<noteq> EFI_NOT_READY)"
      proof (intro iffI allI impI)
        fix k
        assume a: "\<forall>k. Suc Index \<le> k \<and> k < unat (mCapsuleTotalNumber st) \<longrightarrow> mCapsuleStatusArray st ! k \<noteq> EFI_NOT_READY"
          and b: "Index \<le> k \<and> k < unat (mCapsuleTotalNumber st)"
        show "mCapsuleStatusArray st ! k \<noteq> EFI_NOT_READY"
        proof (cases "k = Index")
          case True
          with False show ?thesis by simp
        next
          case neq: False
          with b have "Suc Index \<le> k \<and> k < unat (mCapsuleTotalNumber st)" by simp
          with a show ?thesis by blast
        qed
      next
        fix k
        assume a: "\<forall>k. Index \<le> k \<and> k < unat (mCapsuleTotalNumber st) \<longrightarrow> mCapsuleStatusArray st ! k \<noteq> EFI_NOT_READY"
          and b: "Suc Index \<le> k \<and> k < unat (mCapsuleTotalNumber st)"
        from b have "Index \<le> k \<and> k < unat (mCapsuleTotalNumber st)" by simp
        with a show "mCapsuleStatusArray st ! k \<noteq> EFI_NOT_READY" by blast
      qed
      finally show ?thesis .
    qed
  qed
qed

lemma AreAllImagesProcessed_iff:
  "AreAllImagesProcessed st =
     (\<forall>k < unat (mCapsuleTotalNumber st). mCapsuleStatusArray st ! k \<noteq> EFI_NOT_READY)"
  by (simp add: AreAllImagesProcessed_def AreAllImagesProcessed_from_iff)

lemma body_frame [simp]:
  "mCapsuleTotalNumber (ProcessTheseCapsules_body env fr i st) = mCapsuleTotalNumber st"
  "mCapsulePtr (ProcessTheseCapsules_body env fr i st) = mCapsulePtr st"
  "HobList (ProcessTheseCapsules_body env fr i st) = HobList st"
  "mFmpProgress (ProcessTheseCapsules_body env fr i st) = mFmpProgress st"
  "length (mCapsuleStatusArray (ProcessTheseCapsules_body env fr i st)) = length (mCapsuleStatusArray st)"
  by (simp_all add: ProcessTheseCapsules_body_def set_CapsuleStatus_def Let_def split: prod.splits)

lemma body_other:
  "j \<noteq> i \<Longrightarrow> mCapsuleStatusArray (ProcessTheseCapsules_body env fr i st) ! j = mCapsuleStatusArray st ! j"
  by (simp add: ProcessTheseCapsules_body_def set_CapsuleStatus_def Let_def split: prod.splits)

lemma body_events_other:
  "j \<noteq> i \<Longrightarrow> events_of j (calls (ProcessTheseCapsules_body env fr i st)) = events_of j (calls st)"
  by (simp add: ProcessTheseCapsules_body_def set_CapsuleStatus_def Let_def events_of_def split: prod.splits)

lemma sweep_step:
  "i < unat (mCapsuleTotalNumber st) \<Longrightarrow>
   ProcessTheseCapsules_sweep env fr i st =
   ProcessTheseCapsules_sweep env fr (Suc i) (ProcessTheseCapsules_body env fr i st)"
  by (subst ProcessTheseCapsules_sweep.simps) simp

lemma sweep_done:
  "\<not> i < unat (mCapsuleTotalNumber st) \<Longrightarrow> ProcessTheseCapsules_sweep env fr i st = st"
  by (subst ProcessTheseCapsules_sweep.simps) simp

lemma sweep_frame [simp]:
  "mCapsuleTotalNumber (ProcessTheseCapsules_sweep env fr i st) = mCapsuleTotalNumber st \<and>
   mCapsulePtr (ProcessTheseCapsules_sweep env fr i st) = mCapsulePtr st \<and>
   HobList (ProcessTheseCapsules_sweep env fr i st) = HobList st \<and>
   mFmpProgress (ProcessTheseCapsules_sweep env fr i st) = mFmpProgress st \<and>
   length (mCapsuleStatusArray (ProcessTheseCapsules_sweep env fr i st)) = length (mCapsuleStatusArray st)"
proof (induction env fr i st rule: ProcessTheseCapsules_sweep.induct)
  case (1 env FirstRound Index st)
  show ?case
  proof (cases "Index < unat (mCapsuleTotalNumber st)")
    case False
    then show ?thesis by (simp add: sweep_done)
  next
    case True
    with 1 show ?thesis by (simp add: sweep_step)
  qed
qed

lemma sweep_before:
  "j < i \<Longrightarrow>
     mCapsuleStatusArray (ProcessTheseCapsules_sweep env fr i st) ! j = mCapsuleStatusArray st ! j \<and>
     events_of j (calls (ProcessTheseCapsules_sweep env fr i st)) = events_of j (calls st)"
proof (induction env fr i st rule: ProcessTheseCapsules_sweep.induct)
  case (1 env FirstRound Index st)
  show ?case
  proof (cases "Index < unat (mCapsuleTotalNumber st)")
    case False
    then show ?thesis by (simp add: sweep_done)
  next
    case True
    with 1 show ?thesis
      by (simp add: sweep_step body_other body_events_other)
  qed
qed

lemma sweep_local:
  "i \<le> j \<Longrightarrow> j < unat (mCapsuleTotalNumber st) \<Longrightarrow>
   \<exists>st'. mCapsulePtr st' = mCapsulePtr st \<and> mCapsuleTotalNumber st' = mCapsuleTotalNumber st \<and>
         length (mCapsuleStatusArray st') = length (mCapsuleStatusArray st) \<and>
         mCapsuleStatusArray st' ! j = mCapsuleStatusArray st ! j \<and>
         events_of j (calls st') = events_of j (calls st) \<and>
         mCapsuleStatusArray (ProcessTheseCapsules_sweep env fr i st) ! j =
           mCapsuleStatusArray (ProcessTheseCapsules_body env fr j st') ! j \<and>
         events_of j (calls (ProcessTheseCapsules_sweep env fr i st)) =
           events_of j (calls (ProcessTheseCapsules_body env fr j st'))"
proof (induction env fr i st rule: ProcessTheseCapsules_sweep.induct)
  case (1 env FirstRound Index st)
  from 1(2,3) have lt: "Index < unat (mCapsuleTotalNumber st)" by simp
  note unf = sweep_step [OF lt, of env FirstRound]
  show ?case
  proof (cases "Index = j")
    case True
    show ?thesis
      using sweep_before [of j "Suc j" env FirstRound "ProcessTheseCapsules_body env FirstRound j st"]
        unf True
      by (intro exI [of _ st]) simp
  next
    case False
    with 1(2) have "Index + 1 \<le> j" by simp
    from 1(1) [OF lt this] 1(3)
    obtain st' where st':
      "mCapsulePtr st' = mCapsulePtr st" "mCapsuleTotalNumber st' = mCapsuleTotalNumber st"
      "length (mCapsuleStatusArray st') = length (mCapsuleStatusArray st)"
      "mCapsuleStatusArray st' ! j = mCapsuleStatusArray (ProcessTheseCapsules_body env FirstRound Index st) ! j"
      "events_of j (calls st') = events_of j (calls (ProcessTheseCapsules_body env FirstRound Index st))"
      "mCapsuleStatusArray (ProcessTheseCapsules_sweep env FirstRound (Suc Index) (ProcessTheseCapsules_body env FirstRound Index st)) ! j =
           mCapsuleStatusArray (ProcessTheseCapsules_body env FirstRound j st') ! j"
      "events_of j (calls (ProcessTheseCapsules_sweep env FirstRound (Suc Index) (ProcessTheseCapsules_body env FirstRound Index st))) =
           events_of j (calls (ProcessTheseCapsules_body env FirstRound j st'))"
      by auto
    show ?thesis
      using st' False unf by (intro exI [of _ st']) (simp add: body_other body_events_other)
  qed
qed

lemma set_CapsuleStatus_simps [simp]:
  "mCapsuleTotalNumber (set_CapsuleStatus j s st) = mCapsuleTotalNumber st"
  "mCapsulePtr (set_CapsuleStatus j s st) = mCapsulePtr st"
  "mNeedReset (set_CapsuleStatus j s st) = mNeedReset st"
  "world (set_CapsuleStatus j s st) = world st"
  "mCapsuleStatusArray (set_CapsuleStatus j s st) = (mCapsuleStatusArray st)[j := s]"
  "calls (set_CapsuleStatus j s st) = calls st @ [Store_CapsuleStatus j (mCapsuleStatusArray st ! j) s]"
  by (simp_all add: set_CapsuleStatus_def)

lemma body_skip:
  "mCapsuleStatusArray st ! j \<noteq> EFI_NOT_READY \<or> is_ux env st j \<Longrightarrow>
   ProcessTheseCapsules_body env fr j st = st"
  by (auto simp: ProcessTheseCapsules_body_def is_ux_def Let_def)

lemma body_abort:
  "mCapsuleStatusArray st ! j = EFI_NOT_READY \<Longrightarrow> \<not> is_ux env st j \<Longrightarrow>
   \<not> IsFmpCapsule env (mCapsulePtr st ! j) \<or>
     EFI_ERROR (fst (ValidateFmpCapsule env (mCapsulePtr st ! j))) \<Longrightarrow>
   ProcessTheseCapsules_body env fr j st = set_CapsuleStatus j EFI_ABORTED st"
  by (auto simp: ProcessTheseCapsules_body_def is_ux_def Let_def split: prod.splits)

lemma body_defer:
  "mCapsuleStatusArray st ! j = EFI_NOT_READY \<Longrightarrow> \<not> is_ux env st j \<Longrightarrow>
   IsFmpCapsule env (mCapsulePtr st ! j) \<Longrightarrow>
   \<not> EFI_ERROR (fst (ValidateFmpCapsule env (mCapsulePtr st ! j))) \<Longrightarrow>
   fr \<Longrightarrow> snd (ValidateFmpCapsule env (mCapsulePtr st ! j)) \<noteq> 0 \<Longrightarrow>
   ProcessTheseCapsules_body env fr j st = st"
  by (auto simp: ProcessTheseCapsules_body_def is_ux_def Let_def split: prod.splits)

lemma body_apply:
  assumes "mCapsuleStatusArray st ! j = EFI_NOT_READY" "\<not> is_ux env st j"
    "IsFmpCapsule env (mCapsulePtr st ! j)"
    "\<not> EFI_ERROR (fst (ValidateFmpCapsule env (mCapsulePtr st ! j)))"
    "\<not> fr \<or> snd (ValidateFmpCapsule env (mCapsulePtr st ! j)) = 0"
    "ProcessThisCapsuleImage env (world st) (mCapsulePtr st ! j) True = (s, r, w)"
  shows "mCapsuleStatusArray (ProcessTheseCapsules_body env fr j st) = (mCapsuleStatusArray st)[j := s]"
    and "calls (ProcessTheseCapsules_body env fr j st) =
           calls st @ [Call_ProcessThisCapsuleImage j (mCapsulePtr st ! j) True s r,
                       Store_CapsuleStatus j EFI_NOT_READY s]"
    and "mNeedReset (ProcessTheseCapsules_body env fr j st) =
           (mNeedReset st \<or> (s \<noteq> EFI_NOT_READY \<and> (r \<or> AlwaysReset env (mCapsulePtr st ! j))))"
  using assms
  by (auto simp: ProcessTheseCapsules_body_def is_ux_def Let_def AlwaysReset_def split: prod.splits)

lemma events_of_append [simp]: "events_of j (xs @ ys) = events_of j xs @ events_of j ys"
  by (simp add: events_of_def)

lemma events_of_simps [simp]:
  "events_of j [] = []"
  "events_of j (Call_ProcessThisCapsuleImage i a b s r # xs) =
     (if i = j then Call_ProcessThisCapsuleImage i a b s r # events_of j xs else events_of j xs)"
  "events_of j (Store_CapsuleStatus i old new # xs) =
     (if i = j then Store_CapsuleStatus i old new # events_of j xs else events_of j xs)"
  "events_of j (Call_AllocatePool sz ok # xs) = events_of j xs"
  "events_of j (Call_InstallConfigurationTable g t st # xs) = events_of j xs"
  "events_of j (Call_SyncEsrtFmp # xs) = events_of j xs"
  by (simp_all add: events_of_def)

text \<open>What the sweep does to one index.\<close>

lemma sweep_skip:
  assumes "i \<le> j" "j < unat (mCapsuleTotalNumber st)"
    "mCapsuleStatusArray st ! j \<noteq> EFI_NOT_READY \<or> is_ux env st j"
  shows "mCapsuleStatusArray (ProcessTheseCapsules_sweep env fr i st) ! j = mCapsuleStatusArray st ! j"
    and "events_of j (calls (ProcessTheseCapsules_sweep env fr i st)) = events_of j (calls st)"
proof -
  from sweep_local [OF assms(1,2), of env fr] obtain st' where st':
    "mCapsulePtr st' = mCapsulePtr st" "mCapsuleTotalNumber st' = mCapsuleTotalNumber st"
    "mCapsuleStatusArray st' ! j = mCapsuleStatusArray st ! j"
    "events_of j (calls st') = events_of j (calls st)"
    "mCapsuleStatusArray (ProcessTheseCapsules_sweep env fr i st) ! j =
       mCapsuleStatusArray (ProcessTheseCapsules_body env fr j st') ! j"
    "events_of j (calls (ProcessTheseCapsules_sweep env fr i st)) =
       events_of j (calls (ProcessTheseCapsules_body env fr j st'))"
    by blast
  from assms(3) st'(1,3) have "mCapsuleStatusArray st' ! j \<noteq> EFI_NOT_READY \<or> is_ux env st' j"
    by (simp add: is_ux_def)
  then have "ProcessTheseCapsules_body env fr j st' = st'" by (rule body_skip)
  with st' show
    "mCapsuleStatusArray (ProcessTheseCapsules_sweep env fr i st) ! j = mCapsuleStatusArray st ! j"
    "events_of j (calls (ProcessTheseCapsules_sweep env fr i st)) = events_of j (calls st)"
    by simp_all
qed

lemma sweep_defer:
  assumes "i \<le> j" "j < unat (mCapsuleTotalNumber st)"
    "IsFmpCapsule env (mCapsulePtr st ! j)"
    "\<not> EFI_ERROR (fst (ValidateFmpCapsule env (mCapsulePtr st ! j)))"
    "fr" "snd (ValidateFmpCapsule env (mCapsulePtr st ! j)) \<noteq> 0"
  shows "mCapsuleStatusArray (ProcessTheseCapsules_sweep env fr i st) ! j = mCapsuleStatusArray st ! j"
    and "events_of j (calls (ProcessTheseCapsules_sweep env fr i st)) = events_of j (calls st)"
proof -
  from sweep_local [OF assms(1,2), of env fr] obtain st' where st':
    "mCapsulePtr st' = mCapsulePtr st" "mCapsuleTotalNumber st' = mCapsuleTotalNumber st"
    "mCapsuleStatusArray st' ! j = mCapsuleStatusArray st ! j"
    "events_of j (calls st') = events_of j (calls st)"
    "mCapsuleStatusArray (ProcessTheseCapsules_sweep env fr i st) ! j =
       mCapsuleStatusArray (ProcessTheseCapsules_body env fr j st') ! j"
    "events_of j (calls (ProcessTheseCapsules_sweep env fr i st)) =
       events_of j (calls (ProcessTheseCapsules_body env fr j st'))"
    by blast
  have "ProcessTheseCapsules_body env fr j st' = st'"
  proof (cases "mCapsuleStatusArray st' ! j \<noteq> EFI_NOT_READY \<or> is_ux env st' j")
    case True
    then show ?thesis by (rule body_skip)
  next
    case False
    with assms(3-6) st'(1) show ?thesis by (intro body_defer) simp_all
  qed
  with st' show
    "mCapsuleStatusArray (ProcessTheseCapsules_sweep env fr i st) ! j = mCapsuleStatusArray st ! j"
    "events_of j (calls (ProcessTheseCapsules_sweep env fr i st)) = events_of j (calls st)"
    by simp_all
qed

lemma sweep_abort:
  assumes "i \<le> j" "j < unat (mCapsuleTotalNumber st)" "arrays_ok st"
    "mCapsuleStatusArray st ! j = EFI_NOT_READY" "\<not> is_ux env st j"
    "\<not> IsFmpCapsule env (mCapsulePtr st ! j) \<or>
       EFI_ERROR (fst (ValidateFmpCapsule env (mCapsulePtr st ! j)))"
  shows "mCapsuleStatusArray (ProcessTheseCapsules_sweep env fr i st) ! j = EFI_ABORTED"
    and "events_of j (calls (ProcessTheseCapsules_sweep env fr i st)) =
           events_of j (calls st) @ [Store_CapsuleStatus j EFI_NOT_READY EFI_ABORTED]"
proof -
  from sweep_local [OF assms(1,2), of env fr] obtain st' where st':
    "mCapsulePtr st' = mCapsulePtr st" "mCapsuleTotalNumber st' = mCapsuleTotalNumber st"
    "length (mCapsuleStatusArray st') = length (mCapsuleStatusArray st)"
    "mCapsuleStatusArray st' ! j = mCapsuleStatusArray st ! j"
    "events_of j (calls st') = events_of j (calls st)"
    "mCapsuleStatusArray (ProcessTheseCapsules_sweep env fr i st) ! j =
       mCapsuleStatusArray (ProcessTheseCapsules_body env fr j st') ! j"
    "events_of j (calls (ProcessTheseCapsules_sweep env fr i st)) =
       events_of j (calls (ProcessTheseCapsules_body env fr j st'))"
    by blast
  from assms(2,3) st'(3) have len: "j < length (mCapsuleStatusArray st')"
    by (simp add: arrays_ok_def)
  have "ProcessTheseCapsules_body env fr j st' = set_CapsuleStatus j EFI_ABORTED st'"
    using assms(4-6) st'(1,4) by (intro body_abort) (simp_all add: is_ux_def)
  with st' len assms(4) show
    "mCapsuleStatusArray (ProcessTheseCapsules_sweep env fr i st) ! j = EFI_ABORTED"
    "events_of j (calls (ProcessTheseCapsules_sweep env fr i st)) =
           events_of j (calls st) @ [Store_CapsuleStatus j EFI_NOT_READY EFI_ABORTED]"
    by simp_all
qed

lemma sweep_apply:
  assumes "i \<le> j" "j < unat (mCapsuleTotalNumber st)" "arrays_ok st"
    "mCapsuleStatusArray st ! j = EFI_NOT_READY" "\<not> is_ux env st j"
    "IsFmpCapsule env (mCapsulePtr st ! j)"
    "\<not> EFI_ERROR (fst (ValidateFmpCapsule env (mCapsulePtr st ! j)))"
    "\<not> fr \<or> snd (ValidateFmpCapsule env (mCapsulePtr st ! j)) = 0"
  shows "\<exists>s r. mCapsuleStatusArray (ProcessTheseCapsules_sweep env fr i st) ! j = s \<and>
           events_of j (calls (ProcessTheseCapsules_sweep env fr i st)) =
           events_of j (calls st) @
             [Call_ProcessThisCapsuleImage j (mCapsulePtr st ! j) True s r,
              Store_CapsuleStatus j EFI_NOT_READY s]"
proof -
  from sweep_local [OF assms(1,2), of env fr] obtain st' where st':
    "mCapsulePtr st' = mCapsulePtr st" "mCapsuleTotalNumber st' = mCapsuleTotalNumber st"
    "length (mCapsuleStatusArray st') = length (mCapsuleStatusArray st)"
    "mCapsuleStatusArray st' ! j = mCapsuleStatusArray st ! j"
    "events_of j (calls st') = events_of j (calls st)"
    "mCapsuleStatusArray (ProcessTheseCapsules_sweep env fr i st) ! j =
       mCapsuleStatusArray (ProcessTheseCapsules_body env fr j st') ! j"
    "events_of j (calls (ProcessTheseCapsules_sweep env fr i st)) =
       events_of j (calls (ProcessTheseCapsules_body env fr j st'))"
    by blast
  from assms(2,3) st'(3) have len: "j < length (mCapsuleStatusArray st')"
    by (simp add: arrays_ok_def)
  obtain s r w where p: "ProcessThisCapsuleImage env (world st') (mCapsulePtr st' ! j) True = (s, r, w)"
    by (cases "ProcessThisCapsuleImage env (world st') (mCapsulePtr st' ! j) True") blast
  have pre: "mCapsuleStatusArray st' ! j = EFI_NOT_READY" "\<not> is_ux env st' j"
    "IsFmpCapsule env (mCapsulePtr st' ! j)"
    "\<not> EFI_ERROR (fst (ValidateFmpCapsule env (mCapsulePtr st' ! j)))"
    "\<not> fr \<or> snd (ValidateFmpCapsule env (mCapsulePtr st' ! j)) = 0"
    using assms(4-8) st'(1,4) by (simp_all add: is_ux_def)
  note b = body_apply(1,2) [OF pre p]
  show ?thesis
    using st' len b by (intro exI [of _ s] exI [of _ r]) simp
qed

subsection \<open>The display loop\<close>

lemma ux_done:
  "\<not> i < unat (mCapsuleTotalNumber st) \<Longrightarrow> ProcessTheseCapsules_ux env i st = st"
  by (subst ProcessTheseCapsules_ux.simps) simp

lemma ux_step:
  "i < unat (mCapsuleTotalNumber st) \<Longrightarrow> \<not> is_ux env st i \<Longrightarrow>
   ProcessTheseCapsules_ux env i st = ProcessTheseCapsules_ux env (Suc i) st"
  by (subst ProcessTheseCapsules_ux.simps) (simp add: is_ux_def)

lemma ux_hit:
  "i < unat (mCapsuleTotalNumber st) \<Longrightarrow> is_ux env st i \<Longrightarrow>
   ProcessThisCapsuleImage env (world st) (mCapsulePtr st ! i) False = (s, r, w) \<Longrightarrow>
   ProcessTheseCapsules_ux env i st =
     set_CapsuleStatus i EFI_SUCCESS
       (st\<lparr>world := w,
           calls := calls st @ [Call_ProcessThisCapsuleImage i (mCapsulePtr st ! i) False s False]\<rparr>)"
  by (subst ProcessTheseCapsules_ux.simps) (simp add: is_ux_def)

lemma ux_none:
  "\<forall>k. i \<le> k \<and> k < unat (mCapsuleTotalNumber st) \<longrightarrow> \<not> is_ux env st k \<Longrightarrow>
   ProcessTheseCapsules_ux env i st = st"
proof (induction env i st rule: ProcessTheseCapsules_ux.induct)
  case (1 env Index st)
  show ?case
  proof (cases "Index < unat (mCapsuleTotalNumber st)")
    case False
    then show ?thesis by (rule ux_done)
  next
    case True
    with 1(2) have n: "\<not> is_ux env st Index" by simp
    have "ProcessTheseCapsules_ux env (Index + 1) st = st"
    proof (rule 1(1) [OF True refl])
      from n show "CapsuleGuid (Memory env (mCapsulePtr st ! Index)) \<noteq> gWindowsUxCapsuleGuid env"
        by (simp add: is_ux_def)
      from 1(2) show "\<forall>k. Index + 1 \<le> k \<and> k < unat (mCapsuleTotalNumber st) \<longrightarrow> \<not> is_ux env st k"
        by simp
    qed
    with ux_step [OF True n] show ?thesis by simp
  qed
qed

lemma ux_first:
  "i \<le> p \<Longrightarrow> p < unat (mCapsuleTotalNumber st) \<Longrightarrow> is_ux env st p \<Longrightarrow>
   \<forall>k. i \<le> k \<and> k < p \<longrightarrow> \<not> is_ux env st k \<Longrightarrow>
   ProcessThisCapsuleImage env (world st) (mCapsulePtr st ! p) False = (s, r, w) \<Longrightarrow>
   ProcessTheseCapsules_ux env i st =
     set_CapsuleStatus p EFI_SUCCESS
       (st\<lparr>world := w,
           calls := calls st @ [Call_ProcessThisCapsuleImage p (mCapsulePtr st ! p) False s False]\<rparr>)"
proof (induction env i st rule: ProcessTheseCapsules_ux.induct)
  case (1 env Index st)
  from 1(2,3) have lt: "Index < unat (mCapsuleTotalNumber st)" by simp
  show ?case
  proof (cases "Index = p")
    case True
    with ux_hit [OF lt _ 1(6) [unfolded True [symmetric]]] 1(4) show ?thesis by simp
  next
    case False
    with 1(2,5) have n: "\<not> is_ux env st Index" by simp
    have "ProcessTheseCapsules_ux env (Index + 1) st =
     set_CapsuleStatus p EFI_SUCCESS
       (st\<lparr>world := w,
           calls := calls st @ [Call_ProcessThisCapsuleImage p (mCapsulePtr st ! p) False s False]\<rparr>)"
    proof (rule 1(1) [OF lt refl])
      from n show "CapsuleGuid (Memory env (mCapsulePtr st ! Index)) \<noteq> gWindowsUxCapsuleGuid env"
        by (simp add: is_ux_def)
      from False 1(2) show "Index + 1 \<le> p" by simp
      from 1(5) show "\<forall>k. Index + 1 \<le> k \<and> k < p \<longrightarrow> \<not> is_ux env st k" by simp
    qed (use 1 in simp_all)
    with ux_step [OF lt n] show ?thesis by simp
  qed
qed

lemma first_ux_None:
  "(first_ux env st = None) = (\<forall>k < unat (mCapsuleTotalNumber st). \<not> is_ux env st k)"
  by (auto simp: first_ux_def find_None_iff)

lemma first_ux_Some:
  "(first_ux env st = Some p) =
     (p < unat (mCapsuleTotalNumber st) \<and> is_ux env st p \<and> (\<forall>k < p. \<not> is_ux env st k))"
proof
  assume "first_ux env st = Some p"
  then obtain i where i: "i < length [0 ..< unat (mCapsuleTotalNumber st)]"
      "is_ux env st ([0 ..< unat (mCapsuleTotalNumber st)] ! i)"
      "p = [0 ..< unat (mCapsuleTotalNumber st)] ! i"
      "\<forall>j<i. \<not> is_ux env st ([0 ..< unat (mCapsuleTotalNumber st)] ! j)"
    unfolding first_ux_def find_Some_iff by blast
  from i(1,3) have pi: "p = i" by simp
  show "p < unat (mCapsuleTotalNumber st) \<and> is_ux env st p \<and> (\<forall>k < p. \<not> is_ux env st k)"
  proof (intro conjI allI impI)
    from i(1) pi show "p < unat (mCapsuleTotalNumber st)" by simp
    from i(2) i(3) show "is_ux env st p" by simp
    fix k assume "k < p"
    with i(4) pi i(1) show "\<not> is_ux env st k" by simp
  qed
next
  assume a: "p < unat (mCapsuleTotalNumber st) \<and> is_ux env st p \<and> (\<forall>k < p. \<not> is_ux env st k)"
  show "first_ux env st = Some p"
    unfolding first_ux_def find_Some_iff
  proof (intro exI [of _ p] conjI allI impI)
    from a show "p < length [0 ..< unat (mCapsuleTotalNumber st)]" by simp
    from a show "is_ux env st ([0 ..< unat (mCapsuleTotalNumber st)] ! p)" by simp
    from a show "p = [0 ..< unat (mCapsuleTotalNumber st)] ! p" by simp
    fix j assume "j < p"
    with a show "\<not> is_ux env st ([0 ..< unat (mCapsuleTotalNumber st)] ! j)" by simp
  qed
qed

text \<open>The display loop as a whole.\<close>

lemma ux_None:
  "first_ux env st = None \<Longrightarrow> ProcessTheseCapsules_ux env 0 st = st"
  by (rule ux_none) (simp add: first_ux_None)

lemma ux_Some:
  "first_ux env st = Some p \<Longrightarrow>
   ProcessThisCapsuleImage env (world st) (mCapsulePtr st ! p) False = (s, r, w) \<Longrightarrow>
   ProcessTheseCapsules_ux env 0 st =
     set_CapsuleStatus p EFI_SUCCESS
       (st\<lparr>world := w,
           calls := calls st @ [Call_ProcessThisCapsuleImage p (mCapsulePtr st ! p) False s False]\<rparr>)"
  by (rule ux_first) (simp_all add: first_ux_Some)

lemma ux_frame [simp]:
  "mCapsuleTotalNumber (ProcessTheseCapsules_ux env 0 st) = mCapsuleTotalNumber st"
  "mCapsulePtr (ProcessTheseCapsules_ux env 0 st) = mCapsulePtr st"
  "mNeedReset (ProcessTheseCapsules_ux env 0 st) = mNeedReset st"
  "length (mCapsuleStatusArray (ProcessTheseCapsules_ux env 0 st)) = length (mCapsuleStatusArray st)"
proof -
  show "mCapsuleTotalNumber (ProcessTheseCapsules_ux env 0 st) = mCapsuleTotalNumber st"
  proof (cases "first_ux env st")
    case None then show ?thesis by (simp add: ux_None)
  next
    case (Some p)
    obtain s r w where "ProcessThisCapsuleImage env (world st) (mCapsulePtr st ! p) False = (s, r, w)"
      by (cases "ProcessThisCapsuleImage env (world st) (mCapsulePtr st ! p) False") blast
    from ux_Some [OF Some this] show ?thesis by simp
  qed
  show "mCapsulePtr (ProcessTheseCapsules_ux env 0 st) = mCapsulePtr st"
  proof (cases "first_ux env st")
    case None then show ?thesis by (simp add: ux_None)
  next
    case (Some p)
    obtain s r w where "ProcessThisCapsuleImage env (world st) (mCapsulePtr st ! p) False = (s, r, w)"
      by (cases "ProcessThisCapsuleImage env (world st) (mCapsulePtr st ! p) False") blast
    from ux_Some [OF Some this] show ?thesis by simp
  qed
  show "mNeedReset (ProcessTheseCapsules_ux env 0 st) = mNeedReset st"
  proof (cases "first_ux env st")
    case None then show ?thesis by (simp add: ux_None)
  next
    case (Some p)
    obtain s r w where "ProcessThisCapsuleImage env (world st) (mCapsulePtr st ! p) False = (s, r, w)"
      by (cases "ProcessThisCapsuleImage env (world st) (mCapsulePtr st ! p) False") blast
    from ux_Some [OF Some this] show ?thesis by simp
  qed
  show "length (mCapsuleStatusArray (ProcessTheseCapsules_ux env 0 st)) = length (mCapsuleStatusArray st)"
  proof (cases "first_ux env st")
    case None then show ?thesis by (simp add: ux_None)
  next
    case (Some p)
    obtain s r w where "ProcessThisCapsuleImage env (world st) (mCapsulePtr st ! p) False = (s, r, w)"
      by (cases "ProcessThisCapsuleImage env (world st) (mCapsulePtr st ! p) False") blast
    from ux_Some [OF Some this] show ?thesis by simp
  qed
qed

subsection \<open>Publishing, synchronisation and discovery\<close>

lemma admin_simps [simp]:
  "admin []"
  "admin (xs @ ys) = (admin xs \<and> admin ys)"
  "admin (Call_AllocatePool sz ok # xs) = admin xs"
  "admin (Call_InstallConfigurationTable g t s # xs) = admin xs"
  "admin (Call_SyncEsrtFmp # xs) = admin xs"
  by (simp_all add: admin_def)


lemma admin_events_of [simp]: "admin evs \<Longrightarrow> events_of j evs = []"
  by (induction evs) (auto simp: admin_def events_of_def)

lemma call_AllocatePool_shape:
  "snd (call_AllocatePool env sz st) =
     st\<lparr>world := snd (AllocatePool env (world st) sz),
        calls := calls st @ [Call_AllocatePool sz (fst (call_AllocatePool env sz st))]\<rparr>"
  by (simp add: call_AllocatePool_def split: prod.splits)

lemma Populate_install_shape:
  "\<exists>w evs. Populate_install env gs st = st\<lparr>world := w, calls := calls st @ evs\<rparr> \<and> admin evs"
proof (induction gs arbitrary: st)
  case Nil
  have "Populate_install env [] st = st\<lparr>world := world st, calls := calls st @ []\<rparr>" by simp
  then show ?case using admin_simps(1) by blast
next
  case (Cons g gs)
  define c where "c = Populate_gather env st g 0 []"
  show ?case
  proof (cases "length c \<noteq> 0")
    case False
    then have "Populate_install env (g # gs) st = Populate_install env gs st"
      by (simp add: c_def Let_def)
    with Cons [of st] show ?thesis by simp
  next
    case True
    obtain ok w1 where a: "AllocatePool env (world st) (16 + (length c - 1) * 8) = (ok, w1)"
      by (cases "AllocatePool env (world st) (16 + (length c - 1) * 8)") blast
    define st1 where "st1 = st\<lparr>world := w1, calls := calls st @ [Call_AllocatePool (16 + (length c - 1) * 8) ok]\<rparr>"
    have ca: "call_AllocatePool env (16 + (length c - 1) * 8) st = (ok, st1)"
      using a by (simp add: call_AllocatePool_def st1_def)
    show ?thesis
    proof (cases ok)
      case False
      then have "Populate_install env (g # gs) st = Populate_install env gs st1"
        using True ca by (simp add: c_def [symmetric] Let_def)
      moreover from Cons [of st1] obtain w evs where
        "Populate_install env gs st1 = st1\<lparr>world := w, calls := calls st1 @ evs\<rparr>" "admin evs"
        by blast
      ultimately have "Populate_install env (g # gs) st =
          st\<lparr>world := w, calls := calls st @ (Call_AllocatePool (16 + (length c - 1) * 8) ok # evs)\<rparr>"
        and "admin (Call_AllocatePool (16 + (length c - 1) * 8) ok # evs)"
        by (simp_all add: st1_def)
      then show ?thesis by blast
    next
      case ok: True
      define t where "t = \<lparr>CapsuleArrayNumber = of_nat (length c), CapsulePtr = c\<rparr>"
      obtain s w2 where i: "InstallConfigurationTable env w1 g t = (s, w2)"
        by (cases "InstallConfigurationTable env w1 g t") blast
      define st2 where "st2 = st1\<lparr>world := w2, calls := calls st1 @ [Call_InstallConfigurationTable g t s]\<rparr>"
      have "Populate_install env (g # gs) st = Populate_install env gs st2"
        using True ca ok i by (simp add: c_def [symmetric] Let_def t_def st2_def st1_def)
      moreover from Cons [of st2] obtain w evs where
        "Populate_install env gs st2 = st2\<lparr>world := w, calls := calls st2 @ evs\<rparr>" "admin evs"
        by blast
      ultimately have "Populate_install env (g # gs) st =
          st\<lparr>world := w, calls := calls st @
             (Call_AllocatePool (16 + (length c - 1) * 8) ok # Call_InstallConfigurationTable g t s # evs)\<rparr>"
        and "admin (Call_AllocatePool (16 + (length c - 1) * 8) ok # Call_InstallConfigurationTable g t s # evs)"
        by (simp_all add: st1_def st2_def)
      then show ?thesis by blast
    qed
  qed
qed

lemma Populate_shape:
  "\<exists>w evs. PopulateCapsuleInConfigurationTable env st = st\<lparr>world := w, calls := calls st @ evs\<rparr> \<and>
           admin evs"
proof (cases "mCapsuleTotalNumber st = 0")
  case True
  then have "PopulateCapsuleInConfigurationTable env st = st\<lparr>world := world st, calls := calls st @ []\<rparr>"
    by (simp add: PopulateCapsuleInConfigurationTable_def)
  then show ?thesis using admin_simps(1) by blast
next
  case False
  define n where "n = unat (mCapsuleTotalNumber st)"
  obtain ok1 w1 where a1: "AllocatePool env (world st) (8 * n) = (ok1, w1)"
    by (cases "AllocatePool env (world st) (8 * n)") blast
  define st1 where "st1 = st\<lparr>world := w1, calls := calls st @ [Call_AllocatePool (8 * n) ok1]\<rparr>"
  have c1: "call_AllocatePool env (8 * n) st = (ok1, st1)"
    using a1 by (simp add: call_AllocatePool_def st1_def)
  show ?thesis
  proof (cases ok1)
    case False
    with c1 \<open>mCapsuleTotalNumber st \<noteq> 0\<close>
    have "PopulateCapsuleInConfigurationTable env st =
            st\<lparr>world := w1, calls := calls st @ [Call_AllocatePool (8 * n) ok1]\<rparr>"
      by (simp add: PopulateCapsuleInConfigurationTable_def n_def [symmetric] st1_def)
    moreover have "admin [Call_AllocatePool (8 * n) ok1]" by simp
    ultimately show ?thesis by blast
  next
    case True
    obtain ok2 w2 where a2: "AllocatePool env w1 (16 * n) = (ok2, w2)"
      by (cases "AllocatePool env w1 (16 * n)") blast
    define st2 where "st2 = st1\<lparr>world := w2, calls := calls st1 @ [Call_AllocatePool (16 * n) ok2]\<rparr>"
    have c2: "call_AllocatePool env (16 * n) st1 = (ok2, st2)"
      using a2 by (simp add: call_AllocatePool_def st1_def st2_def)
    show ?thesis
    proof (cases ok2)
      case False
      with c1 c2 True \<open>mCapsuleTotalNumber st \<noteq> 0\<close>
      have "PopulateCapsuleInConfigurationTable env st =
            st\<lparr>world := w2, calls := calls st @ [Call_AllocatePool (8 * n) ok1, Call_AllocatePool (16 * n) ok2]\<rparr>"
        by (simp add: PopulateCapsuleInConfigurationTable_def n_def [symmetric] st1_def st2_def)
      moreover have "admin [Call_AllocatePool (8 * n) ok1, Call_AllocatePool (16 * n) ok2]" by simp
      ultimately show ?thesis by blast
    next
      case ok2: True
      with c1 c2 True \<open>mCapsuleTotalNumber st \<noteq> 0\<close>
      have "PopulateCapsuleInConfigurationTable env st =
              Populate_install env (Populate_guids env st2 0 []) st2"
        by (simp add: PopulateCapsuleInConfigurationTable_def n_def [symmetric])
      moreover from Populate_install_shape [of env "Populate_guids env st2 0 []" st2]
      obtain w evs where
        "Populate_install env (Populate_guids env st2 0 []) st2 = st2\<lparr>world := w, calls := calls st2 @ evs\<rparr>"
        "admin evs" by blast
      ultimately have "PopulateCapsuleInConfigurationTable env st =
            st\<lparr>world := w, calls := calls st @
               (Call_AllocatePool (8 * n) ok1 # Call_AllocatePool (16 * n) ok2 # evs)\<rparr>"
        and "admin (Call_AllocatePool (8 * n) ok1 # Call_AllocatePool (16 * n) ok2 # evs)"
        by (simp_all add: st1_def st2_def)
      then show ?thesis by blast
    qed
  qed
qed

lemma sync_shape:
  "\<exists>w evs. ProcessTheseCapsules_sync env st = st\<lparr>world := w, calls := calls st @ evs\<rparr> \<and> admin evs"
proof (cases "EFI_ERROR (LocateEsrtManagement env (world st))")
  case True
  then have "ProcessTheseCapsules_sync env st = st\<lparr>world := world st, calls := calls st @ []\<rparr>"
    by (simp add: ProcessTheseCapsules_sync_def)
  then show ?thesis using admin_simps(1) by blast
next
  case False
  then have "ProcessTheseCapsules_sync env st =
     st\<lparr>world := SyncEsrtFmp env (world st), calls := calls st @ [Call_SyncEsrtFmp]\<rparr>"
    by (simp add: ProcessTheseCapsules_sync_def)
  moreover have "admin [Call_SyncEsrtFmp]" by simp
  ultimately show ?thesis by blast
qed

text \<open>Discovery.\<close>

lemma fill_length [simp]: "length (InitCapsulePtr_fill hobs i ptrs) = length ptrs"
  by (induction hobs i ptrs rule: InitCapsulePtr_fill.induct) simp_all

lemma InitCapsulePtr_facts:
  "arrays_ok (InitCapsulePtr env st)"
  "mNeedReset (InitCapsulePtr env st) = mNeedReset st"
  "mFmpProgress (InitCapsulePtr env st) = mFmpProgress st"
  "\<exists>evs. calls (InitCapsulePtr env st) = calls st @ evs \<and> admin evs"
  "k < unat (mCapsuleTotalNumber (InitCapsulePtr env st)) \<Longrightarrow>
     mCapsuleStatusArray (InitCapsulePtr env st) ! k = EFI_NOT_READY"
  "alloc_failed (new_calls st (InitCapsulePtr env st)) \<Longrightarrow>
     mCapsuleTotalNumber (InitCapsulePtr env st) = 0"
proof -
  obtain hobs n where c: "InitCapsulePtr_count env (HobList st) (mCapsuleTotalNumber st) = (hobs, n)"
    by (cases "InitCapsulePtr_count env (HobList st) (mCapsuleTotalNumber st)") blast
  define st1 where "st1 = st\<lparr>HobList := hobs, mCapsuleTotalNumber := n\<rparr>"
  obtain ok1 w1 where a1: "AllocatePool env (world st) (8 * unat n) = (ok1, w1)"
    by (cases "AllocatePool env (world st) (8 * unat n)") blast
  obtain ok2 w2 where a2: "AllocatePool env w1 (8 * unat n) = (ok2, w2)"
    by (cases "AllocatePool env w1 (8 * unat n)") blast
  have eq: "InitCapsulePtr env st =
     (if n = 0 then st1
      else if \<not> ok1
        then st1\<lparr>world := w1, calls := calls st @ [Call_AllocatePool (8 * unat n) ok1],
                 mCapsulePtr := [], mCapsuleTotalNumber := 0\<rparr>
      else if \<not> ok2
        then st1\<lparr>world := w2,
                 calls := calls st @ [Call_AllocatePool (8 * unat n) ok1,
                                      Call_AllocatePool (8 * unat n) ok2],
                 mCapsulePtr := [], mCapsuleStatusArray := [], mCapsuleTotalNumber := 0\<rparr>
      else st1\<lparr>world := w2,
               calls := calls st @ [Call_AllocatePool (8 * unat n) ok1,
                                    Call_AllocatePool (8 * unat n) ok2],
               mCapsuleStatusArray := replicate (unat n) EFI_NOT_READY,
               mCapsulePtr := InitCapsulePtr_fill hobs 0 (replicate (unat n) 0)\<rparr>)"
    using c a1 a2 by (simp add: InitCapsulePtr_def call_AllocatePool_def st1_def)
  show "arrays_ok (InitCapsulePtr env st)"
    by (simp add: eq arrays_ok_def st1_def)
  show "mNeedReset (InitCapsulePtr env st) = mNeedReset st"
    by (simp add: eq st1_def)
  show "mFmpProgress (InitCapsulePtr env st) = mFmpProgress st"
    by (simp add: eq st1_def)
  show "\<exists>evs. calls (InitCapsulePtr env st) = calls st @ evs \<and> admin evs"
    by (simp add: eq st1_def)
  show "mCapsuleStatusArray (InitCapsulePtr env st) ! k = EFI_NOT_READY"
    if "k < unat (mCapsuleTotalNumber (InitCapsulePtr env st))"
    using that by (simp add: eq st1_def split: if_splits)
  show "mCapsuleTotalNumber (InitCapsulePtr env st) = 0"
    if "alloc_failed (new_calls st (InitCapsulePtr env st))"
    using that by (simp add: eq st1_def new_calls_def alloc_failed_def split: if_splits)
qed

subsection \<open>A whole pass\<close>





lemma body_summary:
  "\<exists>B. calls (ProcessTheseCapsules_body env fr j st) = calls st @ B \<and>
       filter is_ux_apply B = [] \<and> filter changes_terminal B = [] \<and>
       mNeedReset (ProcessTheseCapsules_body env fr j st) =
         (mNeedReset st \<or> (\<exists>e\<in>set B. reset_cause env e))"
proof (cases "mCapsuleStatusArray st ! j \<noteq> EFI_NOT_READY \<or> is_ux env st j")
  case True
  then have "ProcessTheseCapsules_body env fr j st = st" by (rule body_skip)
  then show ?thesis by (intro exI [of _ "[]"]) simp
next
  case False
  then have nr: "mCapsuleStatusArray st ! j = EFI_NOT_READY" and nux: "\<not> is_ux env st j"
    by simp_all
  show ?thesis
  proof (cases "\<not> IsFmpCapsule env (mCapsulePtr st ! j) \<or>
       EFI_ERROR (fst (ValidateFmpCapsule env (mCapsulePtr st ! j)))")
    case True
    from body_abort [OF nr nux True, of fr] nr show ?thesis
      by (intro exI [of _ "[Store_CapsuleStatus j EFI_NOT_READY EFI_ABORTED]"]) simp
  next
    case ok: False
    show ?thesis
    proof (cases "fr \<and> snd (ValidateFmpCapsule env (mCapsulePtr st ! j)) \<noteq> 0")
      case True
      with body_defer [OF nr nux, of fr] ok
      have "ProcessTheseCapsules_body env fr j st = st" by simp
      then show ?thesis by (intro exI [of _ "[]"]) simp
    next
      case False
      obtain s r w where p: "ProcessThisCapsuleImage env (world st) (mCapsulePtr st ! j) True = (s, r, w)"
        by (cases "ProcessThisCapsuleImage env (world st) (mCapsulePtr st ! j) True") blast
      from ok False have pre: "IsFmpCapsule env (mCapsulePtr st ! j)"
        "\<not> EFI_ERROR (fst (ValidateFmpCapsule env (mCapsulePtr st ! j)))"
        "\<not> fr \<or> snd (ValidateFmpCapsule env (mCapsulePtr st ! j)) = 0"
        by auto
      from body_apply(2,3) [OF nr nux pre p] show ?thesis
        by (intro exI [of _ "[Call_ProcessThisCapsuleImage j (mCapsulePtr st ! j) True s r,
                       Store_CapsuleStatus j EFI_NOT_READY s]"]) simp
    qed
  qed
qed

lemma sweep_summary:
  "\<exists>S. calls (ProcessTheseCapsules_sweep env fr i st) = calls st @ S \<and>
       filter is_ux_apply S = [] \<and> filter changes_terminal S = [] \<and>
       mNeedReset (ProcessTheseCapsules_sweep env fr i st) =
         (mNeedReset st \<or> (\<exists>e\<in>set S. reset_cause env e))"
proof (induction env fr i st rule: ProcessTheseCapsules_sweep.induct)
  case (1 env FirstRound Index st)
  show ?case
  proof (cases "Index < unat (mCapsuleTotalNumber st)")
    case False
    then have "ProcessTheseCapsules_sweep env FirstRound Index st = st" by (rule sweep_done)
    then show ?thesis by (intro exI [of _ "[]"]) simp
  next
    case True
    define st' where "st' = ProcessTheseCapsules_body env FirstRound Index st"
    from body_summary [of env FirstRound Index st] obtain B where B:
      "calls st' = calls st @ B" "filter is_ux_apply B = []" "filter changes_terminal B = []"
      "mNeedReset st' = (mNeedReset st \<or> (\<exists>e\<in>set B. reset_cause env e))"
      unfolding st'_def by blast
    from 1 [OF True] obtain S where S:
      "calls (ProcessTheseCapsules_sweep env FirstRound (Index + 1) st') = calls st' @ S"
      "filter is_ux_apply S = []" "filter changes_terminal S = []"
      "mNeedReset (ProcessTheseCapsules_sweep env FirstRound (Index + 1) st') =
         (mNeedReset st' \<or> (\<exists>e\<in>set S. reset_cause env e))"
      unfolding st'_def by blast
    have unf: "ProcessTheseCapsules_sweep env FirstRound Index st =
               ProcessTheseCapsules_sweep env FirstRound (Index + 1) st'"
      using sweep_step [OF True, of env FirstRound] by (simp add: st'_def)
    show ?thesis
      using B S unf by (intro exI [of _ "B @ S"]) auto
  qed
qed

lemma pass_short:
  "st1 = (if fr then InitCapsulePtr env st else st) \<Longrightarrow>
   mCapsuleTotalNumber st1 = 0 \<or> AreAllImagesProcessed st1 \<Longrightarrow>
   ProcessTheseCapsules env fr st = (EFI_SUCCESS, st1)"
  by (auto simp: ProcessTheseCapsules_def Let_def)

lemma pass_run:
  "st1 = (if fr then InitCapsulePtr env st else st) \<Longrightarrow>
   mCapsuleTotalNumber st1 \<noteq> 0 \<Longrightarrow> \<not> AreAllImagesProcessed st1 \<Longrightarrow>
   ProcessTheseCapsules env fr st =
     (EFI_SUCCESS,
      ProcessTheseCapsules_sync env (ProcessTheseCapsules_sweep env fr 0 (before_sweep env fr st1)))"
  by (simp add: ProcessTheseCapsules_def Let_def before_sweep_def)

lemma is_ux_cong: "mCapsulePtr st' = mCapsulePtr st \<Longrightarrow> is_ux env st' = is_ux env st"
  by (rule ext) (simp add: is_ux_def)

lemma first_ux_cong:
  "mCapsulePtr st' = mCapsulePtr st \<Longrightarrow> mCapsuleTotalNumber st' = mCapsuleTotalNumber st \<Longrightarrow>
   first_ux env st' = first_ux env st"
  by (simp add: first_ux_def is_ux_cong [of st' st])

lemma before_sweep_facts:
  "mCapsulePtr (before_sweep env fr st1) = mCapsulePtr st1 \<and>
   mCapsuleTotalNumber (before_sweep env fr st1) = mCapsuleTotalNumber st1 \<and>
   mNeedReset (before_sweep env fr st1) = mNeedReset st1 \<and>
   length (mCapsuleStatusArray (before_sweep env fr st1)) = length (mCapsuleStatusArray st1) \<and>
   (\<exists>A U. calls (before_sweep env fr st1) = calls st1 @ A @ U \<and> admin A \<and>
      (case first_ux env st1 of
         None \<Rightarrow> U = [] \<and> mCapsuleStatusArray (before_sweep env fr st1) = mCapsuleStatusArray st1
       | Some p \<Rightarrow>
           (\<exists>s. U = [Call_ProcessThisCapsuleImage p (mCapsulePtr st1 ! p) False s False,
                     Store_CapsuleStatus p (mCapsuleStatusArray st1 ! p) EFI_SUCCESS]) \<and>
           mCapsuleStatusArray (before_sweep env fr st1) =
             (mCapsuleStatusArray st1)[p := EFI_SUCCESS]))"
proof -
  define st2 where "st2 = (if fr then PopulateCapsuleInConfigurationTable env st1 else st1)"
  have "\<exists>w A. st2 = st1\<lparr>world := w, calls := calls st1 @ A\<rparr> \<and> admin A"
  proof (cases fr)
    case True
    with Populate_shape [of env st1] show ?thesis by (simp add: st2_def)
  next
    case False
    then have "st2 = st1\<lparr>world := world st1, calls := calls st1 @ []\<rparr>" by (simp add: st2_def)
    then show ?thesis using admin_simps(1) by blast
  qed
  then obtain w A where st2: "st2 = st1\<lparr>world := w, calls := calls st1 @ A\<rparr>" and A: "admin A"
    by blast
  have fu: "first_ux env st2 = first_ux env st1"
    by (rule first_ux_cong) (simp_all add: st2)
  have bs: "before_sweep env fr st1 = ProcessTheseCapsules_ux env 0 st2"
    by (simp add: before_sweep_def st2_def)
  show ?thesis
  proof (cases "first_ux env st1")
    case None
    with fu have "ProcessTheseCapsules_ux env 0 st2 = st2" by (simp add: ux_None)
    with bs None A show ?thesis
      by (simp add: st2) 
  next
    case (Some p)
    obtain s r w' where pr: "ProcessThisCapsuleImage env (world st2) (mCapsulePtr st2 ! p) False = (s, r, w')"
      by (cases "ProcessThisCapsuleImage env (world st2) (mCapsulePtr st2 ! p) False") blast
    from Some fu have "first_ux env st2 = Some p" by simp
    from ux_Some [OF this pr] bs
    have eq: "before_sweep env fr st1 = set_CapsuleStatus p EFI_SUCCESS
       (st2\<lparr>world := w',
           calls := calls st2 @ [Call_ProcessThisCapsuleImage p (mCapsulePtr st2 ! p) False s False]\<rparr>)"
      by simp
    have "calls (before_sweep env fr st1) = calls st1 @ A @
            [Call_ProcessThisCapsuleImage p (mCapsulePtr st1 ! p) False s False,
             Store_CapsuleStatus p (mCapsuleStatusArray st1 ! p) EFI_SUCCESS]"
      by (simp add: eq st2)
    moreover have "mCapsuleStatusArray (before_sweep env fr st1) = (mCapsuleStatusArray st1)[p := EFI_SUCCESS]"
      by (simp add: eq st2)
    moreover have "mCapsulePtr (before_sweep env fr st1) = mCapsulePtr st1"
      "mCapsuleTotalNumber (before_sweep env fr st1) = mCapsuleTotalNumber st1"
      "mNeedReset (before_sweep env fr st1) = mNeedReset st1"
      "length (mCapsuleStatusArray (before_sweep env fr st1)) = length (mCapsuleStatusArray st1)"
      by (simp_all add: eq st2)
    ultimately show ?thesis using Some A by auto
  qed
qed

lemma new_calls_self [simp]: "new_calls st st = []"
  by (simp add: new_calls_def)

lemma new_calls_eq: "calls st' = calls st @ evs \<Longrightarrow> new_calls st st' = evs"
  by (simp add: new_calls_def)

lemma applied_events_of: "applied j evs = (filter (is_apply j) (events_of j evs) \<noteq> [])"
proof -
  have "filter (is_apply j) (events_of j evs) = filter (is_apply j) evs"
  proof (induction evs)
    case Nil
    show ?case by simp
  next
    case (Cons e evs)
    then show ?case by (cases e) (simp_all add: events_of_def)
  qed
  then show ?thesis by (simp add: applied_def)
qed

text \<open>A pass that is not cut short, seen from one index.\<close>

lemma pass_index:
  assumes "st1 = (if fr then InitCapsulePtr env st else st)"
    "mCapsuleTotalNumber st1 \<noteq> 0" "\<not> AreAllImagesProcessed st1"
    "r = snd (ProcessTheseCapsules env fr st)"
    "sw = ProcessTheseCapsules_sweep env fr 0 (before_sweep env fr st1)"
  shows "mCapsuleStatusArray r = mCapsuleStatusArray sw \<and>
         mCapsulePtr r = mCapsulePtr st1 \<and> mCapsuleTotalNumber r = mCapsuleTotalNumber st1 \<and>
         mNeedReset r = mNeedReset sw \<and>
         (\<exists>Y. calls r = calls sw @ Y \<and> admin Y)"
proof -
  from pass_run [OF assms(1-3)] assms(4,5) have r: "r = ProcessTheseCapsules_sync env sw" by simp
  from sync_shape [of env sw] obtain w Y where
    "ProcessTheseCapsules_sync env sw = sw\<lparr>world := w, calls := calls sw @ Y\<rparr>" "admin Y" by blast
  with r have "r = sw\<lparr>world := w, calls := calls sw @ Y\<rparr>" "admin Y" by simp_all
  moreover have "mCapsulePtr sw = mCapsulePtr st1" "mCapsuleTotalNumber sw = mCapsuleTotalNumber st1"
    using before_sweep_facts [of env fr st1] by (simp_all add: assms(5))
  ultimately show ?thesis by auto
qed

lemma before_sweep_other:
  assumes "first_ux env st1 \<noteq> Some j"
  shows "mCapsuleStatusArray (before_sweep env fr st1) ! j = mCapsuleStatusArray st1 ! j \<and>
         events_of j (calls (before_sweep env fr st1)) = events_of j (calls st1)"
proof -
  from before_sweep_facts [of env fr st1] obtain A U where AU:
    "calls (before_sweep env fr st1) = calls st1 @ A @ U" "admin A"
    "case first_ux env st1 of
         None \<Rightarrow> U = [] \<and> mCapsuleStatusArray (before_sweep env fr st1) = mCapsuleStatusArray st1
       | Some p \<Rightarrow>
           (\<exists>s. U = [Call_ProcessThisCapsuleImage p (mCapsulePtr st1 ! p) False s False,
                     Store_CapsuleStatus p (mCapsuleStatusArray st1 ! p) EFI_SUCCESS]) \<and>
           mCapsuleStatusArray (before_sweep env fr st1) =
             (mCapsuleStatusArray st1)[p := EFI_SUCCESS]"
    by blast
  show ?thesis
  proof (cases "first_ux env st1")
    case None
    with AU show ?thesis by simp
  next
    case (Some p)
    with assms have "p \<noteq> j" by simp
    with AU Some show ?thesis by auto
  qed
qed


lemma before_sweep_arrays_ok: "arrays_ok st1 \<Longrightarrow> arrays_ok (before_sweep env fr st1)"
  using before_sweep_facts [of env fr st1] by (simp add: arrays_ok_def)

lemma pending_runs:
  "j < unat (mCapsuleTotalNumber st1) \<Longrightarrow> mCapsuleStatusArray st1 ! j = EFI_NOT_READY \<Longrightarrow>
   mCapsuleTotalNumber st1 \<noteq> 0 \<and> \<not> AreAllImagesProcessed st1"
  by (auto simp: AreAllImagesProcessed_iff)

text \<open>An index the sweep leaves alone, in a pass of any kind.\<close>

lemma pass_skip:
  assumes "st1 = (if fr then InitCapsulePtr env st else st)"
    "r = snd (ProcessTheseCapsules env fr st)"
    "j < unat (mCapsuleTotalNumber st1)" "first_ux env st1 \<noteq> Some j"
    "mCapsuleStatusArray st1 ! j \<noteq> EFI_NOT_READY \<or> is_ux env st1 j \<or>
     (IsFmpCapsule env (mCapsulePtr st1 ! j) \<and>
      \<not> EFI_ERROR (fst (ValidateFmpCapsule env (mCapsulePtr st1 ! j))) \<and>
      fr \<and> snd (ValidateFmpCapsule env (mCapsulePtr st1 ! j)) \<noteq> 0)"
  shows "mCapsuleStatusArray r ! j = mCapsuleStatusArray st1 ! j \<and>
         events_of j (calls r) = events_of j (calls st1)"
proof (cases "mCapsuleTotalNumber st1 = 0 \<or> AreAllImagesProcessed st1")
  case True
  from pass_short [OF assms(1) True] assms(2) show ?thesis by simp
next
  case False
  define st3 where "st3 = before_sweep env fr st1"
  define sw where "sw = ProcessTheseCapsules_sweep env fr 0 st3"
  from False have run: "mCapsuleTotalNumber st1 \<noteq> 0" "\<not> AreAllImagesProcessed st1" by simp_all
  from pass_index [OF assms(1) run assms(2) sw_def [unfolded st3_def]]
  obtain Y where r: "mCapsuleStatusArray r = mCapsuleStatusArray sw" "calls r = calls sw @ Y" "admin Y"
    by blast
  from before_sweep_other [OF assms(4), of fr]
  have o: "mCapsuleStatusArray st3 ! j = mCapsuleStatusArray st1 ! j"
    "events_of j (calls st3) = events_of j (calls st1)"
    by (simp_all add: st3_def)
  from before_sweep_facts [of env fr st1]
  have f: "mCapsulePtr st3 = mCapsulePtr st1" "mCapsuleTotalNumber st3 = mCapsuleTotalNumber st1"
    by (simp_all add: st3_def)
  have lt: "j < unat (mCapsuleTotalNumber st3)" using assms(3) f by simp
  have ux: "is_ux env st3 j = is_ux env st1 j" using f by (simp add: is_ux_def)
  have "mCapsuleStatusArray sw ! j = mCapsuleStatusArray st3 ! j \<and>
        events_of j (calls sw) = events_of j (calls st3)"
  proof (cases "mCapsuleStatusArray st1 ! j \<noteq> EFI_NOT_READY \<or> is_ux env st1 j")
    case True
    with o ux have "mCapsuleStatusArray st3 ! j \<noteq> EFI_NOT_READY \<or> is_ux env st3 j" by simp
    from sweep_skip [OF _ lt this, of 0 fr] show ?thesis by (simp add: sw_def)
  next
    case False
    with assms(5) f have d: "IsFmpCapsule env (mCapsulePtr st3 ! j)"
      "\<not> EFI_ERROR (fst (ValidateFmpCapsule env (mCapsulePtr st3 ! j)))"
      "fr" "snd (ValidateFmpCapsule env (mCapsulePtr st3 ! j)) \<noteq> 0"
      by simp_all
    from sweep_defer [OF _ lt d, of 0] show ?thesis by (simp add: sw_def)
  qed
  with r o show ?thesis by simp
qed

lemma pass_abort:
  assumes "st1 = (if fr then InitCapsulePtr env st else st)" "arrays_ok st1"
    "r = snd (ProcessTheseCapsules env fr st)"
    "j < unat (mCapsuleTotalNumber st1)"
    "mCapsuleStatusArray st1 ! j = EFI_NOT_READY" "\<not> is_ux env st1 j"
    "\<not> IsFmpCapsule env (mCapsulePtr st1 ! j) \<or>
       EFI_ERROR (fst (ValidateFmpCapsule env (mCapsulePtr st1 ! j)))"
  shows "mCapsuleStatusArray r ! j = EFI_ABORTED \<and>
         events_of j (calls r) =
           events_of j (calls st1) @ [Store_CapsuleStatus j EFI_NOT_READY EFI_ABORTED]"
proof -
  define st3 where "st3 = before_sweep env fr st1"
  define sw where "sw = ProcessTheseCapsules_sweep env fr 0 st3"
  from pending_runs [OF assms(4,5)]
  have run: "mCapsuleTotalNumber st1 \<noteq> 0" "\<not> AreAllImagesProcessed st1" by simp_all
  from pass_index [OF assms(1) run assms(3) sw_def [unfolded st3_def]]
  obtain Y where r: "mCapsuleStatusArray r = mCapsuleStatusArray sw" "calls r = calls sw @ Y" "admin Y"
    by blast
  from assms(4,6) have nf: "first_ux env st1 \<noteq> Some j" by (simp add: first_ux_Some)
  from before_sweep_other [OF nf, of fr]
  have o: "mCapsuleStatusArray st3 ! j = mCapsuleStatusArray st1 ! j"
    "events_of j (calls st3) = events_of j (calls st1)"
    by (simp_all add: st3_def)
  from before_sweep_facts [of env fr st1]
  have f: "mCapsulePtr st3 = mCapsulePtr st1" "mCapsuleTotalNumber st3 = mCapsuleTotalNumber st1"
    by (simp_all add: st3_def)
  have lt: "j < unat (mCapsuleTotalNumber st3)" using assms(4) f by simp
  have ok: "arrays_ok st3" unfolding st3_def by (rule before_sweep_arrays_ok [OF assms(2)])
  have pre: "mCapsuleStatusArray st3 ! j = EFI_NOT_READY" "\<not> is_ux env st3 j"
    "\<not> IsFmpCapsule env (mCapsulePtr st3 ! j) \<or>
       EFI_ERROR (fst (ValidateFmpCapsule env (mCapsulePtr st3 ! j)))"
    using assms(5-7) o f by (simp_all add: is_ux_def)
  from sweep_abort [OF _ lt ok pre, of 0 fr] r o show ?thesis by (simp add: sw_def)
qed

lemma pass_apply:
  assumes "st1 = (if fr then InitCapsulePtr env st else st)" "arrays_ok st1"
    "r = snd (ProcessTheseCapsules env fr st)"
    "j < unat (mCapsuleTotalNumber st1)"
    "mCapsuleStatusArray st1 ! j = EFI_NOT_READY" "\<not> is_ux env st1 j"
    "IsFmpCapsule env (mCapsulePtr st1 ! j)"
    "\<not> EFI_ERROR (fst (ValidateFmpCapsule env (mCapsulePtr st1 ! j)))"
    "\<not> fr \<or> snd (ValidateFmpCapsule env (mCapsulePtr st1 ! j)) = 0"
  shows "\<exists>s rr. mCapsuleStatusArray r ! j = s \<and>
         events_of j (calls r) =
           events_of j (calls st1) @
           [Call_ProcessThisCapsuleImage j (mCapsulePtr st1 ! j) True s rr,
            Store_CapsuleStatus j EFI_NOT_READY s]"
proof -
  define st3 where "st3 = before_sweep env fr st1"
  define sw where "sw = ProcessTheseCapsules_sweep env fr 0 st3"
  from pending_runs [OF assms(4,5)]
  have run: "mCapsuleTotalNumber st1 \<noteq> 0" "\<not> AreAllImagesProcessed st1" by simp_all
  from pass_index [OF assms(1) run assms(3) sw_def [unfolded st3_def]]
  obtain Y where r: "mCapsuleStatusArray r = mCapsuleStatusArray sw" "calls r = calls sw @ Y" "admin Y"
    by blast
  from assms(4,6) have nf: "first_ux env st1 \<noteq> Some j" by (simp add: first_ux_Some)
  from before_sweep_other [OF nf, of fr]
  have o: "mCapsuleStatusArray st3 ! j = mCapsuleStatusArray st1 ! j"
    "events_of j (calls st3) = events_of j (calls st1)"
    by (simp_all add: st3_def)
  from before_sweep_facts [of env fr st1]
  have f: "mCapsulePtr st3 = mCapsulePtr st1" "mCapsuleTotalNumber st3 = mCapsuleTotalNumber st1"
    by (simp_all add: st3_def)
  have lt: "j < unat (mCapsuleTotalNumber st3)" using assms(4) f by simp
  have ok: "arrays_ok st3" unfolding st3_def by (rule before_sweep_arrays_ok [OF assms(2)])
  have pre: "mCapsuleStatusArray st3 ! j = EFI_NOT_READY" "\<not> is_ux env st3 j"
    "IsFmpCapsule env (mCapsulePtr st3 ! j)"
    "\<not> EFI_ERROR (fst (ValidateFmpCapsule env (mCapsulePtr st3 ! j)))"
    "\<not> fr \<or> snd (ValidateFmpCapsule env (mCapsulePtr st3 ! j)) = 0"
    using assms(5-9) o f by (simp_all add: is_ux_def)
  from sweep_apply [OF _ lt ok pre, of 0] obtain s rr where
    "mCapsuleStatusArray sw ! j = s"
    "events_of j (calls sw) = events_of j (calls st3) @
             [Call_ProcessThisCapsuleImage j (mCapsulePtr st3 ! j) True s rr,
              Store_CapsuleStatus j EFI_NOT_READY s]"
    unfolding sw_def by blast
  with r o f show ?thesis by simp
qed

lemma pass_prefix:
  assumes "st1 = (if fr then InitCapsulePtr env st else st)"
    "r = snd (ProcessTheseCapsules env fr st)"
  shows "prefix (calls st1) (calls r)"
proof (cases "mCapsuleTotalNumber st1 = 0 \<or> AreAllImagesProcessed st1")
  case True
  from pass_short [OF assms(1) True] assms(2) show ?thesis by simp
next
  case False
  define sw where "sw = ProcessTheseCapsules_sweep env fr 0 (before_sweep env fr st1)"
  from False have run: "mCapsuleTotalNumber st1 \<noteq> 0" "\<not> AreAllImagesProcessed st1" by simp_all
  from pass_index [OF assms(1) run assms(2) sw_def]
  obtain Y where "calls r = calls sw @ Y" by blast
  moreover from sweep_summary [of env fr 0 "before_sweep env fr st1"]
  obtain S where "calls sw = calls (before_sweep env fr st1) @ S" unfolding sw_def by blast
  moreover from before_sweep_facts [of env fr st1]
  obtain A U where "calls (before_sweep env fr st1) = calls st1 @ A @ U" by blast
  ultimately show ?thesis by (simp add: prefix_def)
qed

lemma events_of_new_calls:
  "prefix (calls a) (calls b) \<Longrightarrow> events_of j (calls b) = events_of j (calls a) @ Z \<Longrightarrow>
   events_of j (new_calls a b) = Z"
  by (auto simp: prefix_def new_calls_def)

lemma pass_frame:
  assumes "st1 = (if fr then InitCapsulePtr env st else st)"
    "r = snd (ProcessTheseCapsules env fr st)"
  shows "mCapsulePtr r = mCapsulePtr st1 \<and> mCapsuleTotalNumber r = mCapsuleTotalNumber st1 \<and>
         length (mCapsuleStatusArray r) = length (mCapsuleStatusArray st1)"
proof (cases "mCapsuleTotalNumber st1 = 0 \<or> AreAllImagesProcessed st1")
  case True
  from pass_short [OF assms(1) True] assms(2) show ?thesis by simp
next
  case False
  define sw where "sw = ProcessTheseCapsules_sweep env fr 0 (before_sweep env fr st1)"
  from False have run: "mCapsuleTotalNumber st1 \<noteq> 0" "\<not> AreAllImagesProcessed st1" by simp_all
  from pass_index [OF assms(1) run assms(2) sw_def] before_sweep_facts [of env fr st1]
  show ?thesis by (simp add: sw_def)
qed








lemma filter_events_of:
  assumes "\<And>e. P e \<Longrightarrow> ev_index e = Some j"
  shows "filter P (events_of j evs) = filter P evs"
proof (induction evs)
  case Nil
  show ?case by simp
next
  case (Cons e evs)
  show ?case
  proof (cases "ev_index e = Some j")
    case True
    with Cons show ?thesis by (simp add: events_of_def)
  next
    case False
    with assms [of e] have "\<not> P e" by blast
    with Cons False show ?thesis by (simp add: events_of_def)
  qed
qed

lemma is_apply_index: "is_apply j e \<Longrightarrow> ev_index e = Some j"
  by (cases e) simp_all



subsection \<open>The log as a record of the calls\<close>

lemma replay_append [simp]: "replay env w (xs @ ys) = replay env (replay env w xs) ys"
  by (induction xs arbitrary: w) simp_all

lemma faithful_append [simp]:
  "faithful env w (xs @ ys) = (faithful env w xs \<and> faithful env (replay env w xs) ys)"
  by (induction xs arbitrary: w) simp_all

lemma traced_refl [simp]: "traced env st st"
  by (simp add: traced_def)

lemma traced_by:
  "calls st' = calls st @ L \<Longrightarrow> faithful env (world st) L \<Longrightarrow>
   world st' = replay env (world st) L \<Longrightarrow> traced env st st'"
  by (simp add: traced_def new_calls_def)

lemma traced_log:
  "traced env st st' \<Longrightarrow>
   \<exists>L. calls st' = calls st @ L \<and> new_calls st st' = L \<and> faithful env (world st) L \<and>
       world st' = replay env (world st) L"
  by (auto simp: traced_def new_calls_def prefix_def)

lemma traced_trans:
  assumes "traced env a b" "traced env b c"
  shows "traced env a c"
proof -
  from traced_log [OF assms(1)] obtain L where
    l: "calls b = calls a @ L" "faithful env (world a) L" "world b = replay env (world a) L"
    by blast
  from traced_log [OF assms(2)] obtain M where
    m: "calls c = calls b @ M" "faithful env (world b) M" "world c = replay env (world b) M"
    by blast
  from l m show ?thesis by (intro traced_by [of _ _ "L @ M"]) simp_all
qed

lemma traced_same:
  "world st'' = world st' \<Longrightarrow> calls st'' = calls st' \<Longrightarrow> traced env st st' \<Longrightarrow>
   traced env st st''"
  by (simp add: traced_def new_calls_def)

lemma traced_alloc: "traced env st (snd (call_AllocatePool env sz st))"
  by (rule traced_by [of _ _ "[Call_AllocatePool sz (fst (AllocatePool env (world st) sz))]"])
     (simp_all add: call_AllocatePool_def split: prod.splits)

lemma traced_store: "traced env st (set_CapsuleStatus j s st)"
  by (rule traced_by [of _ _ "[Store_CapsuleStatus j (mCapsuleStatusArray st ! j) s]"])
     (simp_all add: set_CapsuleStatus_def)

lemma traced_body: "traced env st (ProcessTheseCapsules_body env fr i st)"
  by (simp add: ProcessTheseCapsules_body_def traced_def new_calls_def set_CapsuleStatus_def
        Let_def split: prod.splits)

lemma traced_sweep: "traced env st (ProcessTheseCapsules_sweep env fr i st)"
proof (induction env fr i st rule: ProcessTheseCapsules_sweep.induct)
  case (1 env FirstRound Index st)
  show ?case
  proof (cases "Index < unat (mCapsuleTotalNumber st)")
    case False
    then show ?thesis by (simp add: sweep_done)
  next
    case True
    from 1 [OF True] sweep_step [OF True, of env FirstRound]
      traced_body [of env st FirstRound Index]
    show ?thesis by (auto intro: traced_trans)
  qed
qed

lemma traced_ux: "traced env st (ProcessTheseCapsules_ux env i st)"
proof (induction env i st rule: ProcessTheseCapsules_ux.induct)
  case (1 env Index st)
  show ?case
  proof (cases "Index < unat (mCapsuleTotalNumber st)")
    case False
    then show ?thesis by (simp add: ux_done)
  next
    case True
    show ?thesis
    proof (cases "is_ux env st Index")
      case False
      with 1 [OF True refl] ux_step [OF True False] show ?thesis by (simp add: is_ux_def)
    next
      case u: True
      obtain s r w where p:
        "ProcessThisCapsuleImage env (world st) (mCapsulePtr st ! Index) False = (s, r, w)"
        by (cases "ProcessThisCapsuleImage env (world st) (mCapsulePtr st ! Index) False") blast
      show ?thesis
        unfolding ux_hit [OF True u p]
        by (rule traced_by [of _ _ "[Call_ProcessThisCapsuleImage Index (mCapsulePtr st ! Index) False s False,
               Store_CapsuleStatus Index (mCapsuleStatusArray st ! Index) EFI_SUCCESS]"])
           (simp_all add: p)
    qed
  qed
qed

lemma traced_install: "traced env st (Populate_install env gs st)"
proof (induction gs arbitrary: st)
  case Nil
  show ?case by simp
next
  case (Cons g gs)
  define c where "c = Populate_gather env st g 0 []"
  define sz where "sz = 16 + (length c - 1) * 8"
  obtain ok w1 where a: "AllocatePool env (world st) sz = (ok, w1)"
    by (cases "AllocatePool env (world st) sz") blast
  define st1 where "st1 = st\<lparr>world := w1, calls := calls st @ [Call_AllocatePool sz ok]\<rparr>"
  have t1: "traced env st st1"
    by (rule traced_by [of _ _ "[Call_AllocatePool sz ok]"]) (simp_all add: st1_def a)
  define tb where "tb = \<lparr>CapsuleArrayNumber = of_nat (length c), CapsulePtr = c\<rparr>"
  obtain s w2 where i: "InstallConfigurationTable env w1 g tb = (s, w2)"
    by (cases "InstallConfigurationTable env w1 g tb") blast
  define st2 where "st2 = st1\<lparr>world := w2,
      calls := calls st1 @ [Call_InstallConfigurationTable g tb s]\<rparr>"
  have t2: "traced env st1 st2"
    by (rule traced_by [of _ _ "[Call_InstallConfigurationTable g tb s]"])
       (simp_all add: st2_def st1_def i)
  have eq: "Populate_install env (g # gs) st =
     (if length c \<noteq> 0
      then (if \<not> ok then Populate_install env gs st1 else Populate_install env gs st2)
      else Populate_install env gs st)"
    using a i
    by (simp add: c_def [symmetric] Let_def call_AllocatePool_def sz_def st1_def st2_def tb_def)
  show ?case
    unfolding eq using Cons [of st] Cons [of st1] Cons [of st2] t1 t2
    by (auto intro: traced_trans)
qed

lemma traced_Populate: "traced env st (PopulateCapsuleInConfigurationTable env st)"
proof -
  define n where "n = unat (mCapsuleTotalNumber st)"
  define st1 where "st1 = snd (call_AllocatePool env (8 * n) st)"
  define st2 where "st2 = snd (call_AllocatePool env (16 * n) st1)"
  have t1: "traced env st st1" unfolding st1_def by (rule traced_alloc)
  have t2: "traced env st1 st2" unfolding st2_def by (rule traced_alloc)
  have t12: "traced env st st2" by (rule traced_trans [OF t1 t2])
  have "PopulateCapsuleInConfigurationTable env st = st \<or>
        PopulateCapsuleInConfigurationTable env st = st1 \<or>
        PopulateCapsuleInConfigurationTable env st = st2 \<or>
        PopulateCapsuleInConfigurationTable env st =
          Populate_install env (Populate_guids env st2 0 []) st2"
    by (simp add: PopulateCapsuleInConfigurationTable_def st1_def st2_def n_def Let_def
          split: prod.splits)
  with t1 t12 traced_trans [OF t12 traced_install [of env st2 "Populate_guids env st2 0 []"]]
  show ?thesis by auto
qed

lemma traced_discovery: "traced env st (InitCapsulePtr env st)"
proof -
  obtain hobs n where c: "InitCapsulePtr_count env (HobList st) (mCapsuleTotalNumber st) = (hobs, n)"
    by (cases "InitCapsulePtr_count env (HobList st) (mCapsuleTotalNumber st)") blast
  define st1 where "st1 = st\<lparr>HobList := hobs, mCapsuleTotalNumber := n\<rparr>"
  define st2 where "st2 = snd (call_AllocatePool env (8 * unat n) st1)"
  define st3 where "st3 = snd (call_AllocatePool env (8 * unat n) st2)"
  have t1: "traced env st st1" by (simp add: traced_def st1_def new_calls_def)
  have t2: "traced env st st2"
    unfolding st2_def by (rule traced_trans [OF t1 traced_alloc])
  have t3: "traced env st st3"
    unfolding st3_def by (rule traced_trans [OF t2 traced_alloc])
  have "world (InitCapsulePtr env st) = world st1 \<and> calls (InitCapsulePtr env st) = calls st1 \<or>
        world (InitCapsulePtr env st) = world st2 \<and> calls (InitCapsulePtr env st) = calls st2 \<or>
        world (InitCapsulePtr env st) = world st3 \<and> calls (InitCapsulePtr env st) = calls st3"
    using c
    by (simp add: InitCapsulePtr_def st1_def st2_def st3_def Let_def split: prod.splits)
  with t1 t2 t3 show ?thesis by (auto intro: traced_same)
qed

lemma traced_sync: "traced env st (ProcessTheseCapsules_sync env st)"
  by (simp add: ProcessTheseCapsules_sync_def traced_def new_calls_def Let_def)

lemma traced_pass:
  assumes "st1 = (if fr then InitCapsulePtr env st else st)"
    and "r = snd (ProcessTheseCapsules env fr st)"
  shows "traced env st1 r"
proof (cases "mCapsuleTotalNumber st1 = 0 \<or> AreAllImagesProcessed st1")
  case True
  from pass_short [OF assms(1) True] assms(2) show ?thesis by simp
next
  case False
  define st2 where "st2 = (if fr then PopulateCapsuleInConfigurationTable env st1 else st1)"
  define st3 where "st3 = ProcessTheseCapsules_ux env 0 st2"
  define st4 where "st4 = ProcessTheseCapsules_sweep env fr 0 st3"
  have "r = ProcessTheseCapsules_sync env st4"
    using False assms
    by (simp add: ProcessTheseCapsules_def Let_def st2_def st3_def st4_def)
  moreover have "traced env st1 st2" by (simp add: st2_def traced_Populate)
  moreover have "traced env st2 st3" by (simp add: st3_def traced_ux)
  moreover have "traced env st3 st4" by (simp add: st4_def traced_sweep)
  moreover have "traced env st4 (ProcessTheseCapsules_sync env st4)" by (rule traced_sync)
  ultimately show ?thesis by (auto intro: traced_trans)
qed

lemma faithful_first:
  "faithful env w L \<Longrightarrow> filter P L = e # es \<Longrightarrow>
   genuine env (replay env w (takeWhile (\<lambda>x. \<not> P x) L)) e"
  by (induction L arbitrary: w) (auto split: if_splits)

lemma apply_result_eq:
  assumes "traced env a b"
    and "filter (is_apply j) (new_calls a b) =
           [Call_ProcessThisCapsuleImage j (mCapsulePtr a ! j) True s r]"
  shows "s = fst (apply_result env a b j) \<and> r = fst (snd (apply_result env a b j))"
proof -
  from assms(1) have "faithful env (world a) (new_calls a b)" by (simp add: traced_def)
  from faithful_first [OF this assms(2)] show ?thesis by (simp add: apply_result_def)
qed

text \<open>An apply of the general sweep: its log entries and the status stored are the delegate's.\<close>

lemma pass_applied:
  assumes "st1 = (if fr then InitCapsulePtr env st else st)" "arrays_ok st1"
    "r = snd (ProcessTheseCapsules env fr st)"
    "j < unat (mCapsuleTotalNumber st1)"
    "mCapsuleStatusArray st1 ! j = EFI_NOT_READY" "\<not> is_ux env st1 j"
    "IsFmpCapsule env (mCapsulePtr st1 ! j)"
    "\<not> EFI_ERROR (fst (ValidateFmpCapsule env (mCapsulePtr st1 ! j)))"
    "\<not> fr \<or> snd (ValidateFmpCapsule env (mCapsulePtr st1 ! j)) = 0"
  shows "events_of j (new_calls st1 r) =
           [Call_ProcessThisCapsuleImage j (mCapsulePtr st1 ! j) True
              (fst (apply_result env st1 r j)) (fst (snd (apply_result env st1 r j))),
            Store_CapsuleStatus j EFI_NOT_READY (fst (apply_result env st1 r j))] \<and>
         mCapsuleStatusArray r ! j = fst (apply_result env st1 r j)"
proof -
  from pass_apply [OF assms] obtain s rr where a:
    "mCapsuleStatusArray r ! j = s"
    "events_of j (calls r) = events_of j (calls st1) @
       [Call_ProcessThisCapsuleImage j (mCapsulePtr st1 ! j) True s rr,
        Store_CapsuleStatus j EFI_NOT_READY s]"
    by blast
  from events_of_new_calls [OF pass_prefix [OF assms(1,3)] a(2)]
  have e: "events_of j (new_calls st1 r) =
       [Call_ProcessThisCapsuleImage j (mCapsulePtr st1 ! j) True s rr,
        Store_CapsuleStatus j EFI_NOT_READY s]" .
  have "filter (is_apply j) (new_calls st1 r) = filter (is_apply j) (events_of j (new_calls st1 r))"
    by (rule filter_events_of [OF is_apply_index, symmetric])
  also have "\<dots> = [Call_ProcessThisCapsuleImage j (mCapsulePtr st1 ! j) True s rr]"
    by (simp add: e)
  finally have f: "filter (is_apply j) (new_calls st1 r) =
                   [Call_ProcessThisCapsuleImage j (mCapsulePtr st1 ! j) True s rr]" .
  from apply_result_eq [OF traced_pass [OF assms(1,3)] f]
  have "s = fst (apply_result env st1 r j)" "rr = fst (snd (apply_result env st1 r j))"
    by simp_all
  with a(1) e show ?thesis by simp
qed

subsection \<open>Evaluation\<close>

lemma replicate_numeral: "replicate (numeral k) x = x # replicate (pred_numeral k) x"
  by (simp add: numeral_eq_Suc)

lemmas run_defs = ProcessTheseCapsules_def InitCapsulePtr_def call_AllocatePool_def
  PopulateCapsuleInConfigurationTable_def AreAllImagesProcessed_def
  AreAllImagesProcessed_from.simps Populate_find.simps Populate_guids.simps Populate_gather.simps
  ProcessTheseCapsules_ux.simps ProcessTheseCapsules_sweep.simps ProcessTheseCapsules_body_def
  ProcessTheseCapsules_sync_def set_CapsuleStatus_def Let_def scenario_def boot_state_def capsule_hob_def case_at_def
  EFI_HOB_TYPE_UEFI_CAPSULE_def EFI_HOB_TYPE_UNUSED_def CAPSULE_FLAGS_POPULATE_SYSTEM_TABLE_def
  hobs_of_def hdr_def ux_guid_def replicate_numeral new_calls_def

lemmas cap_defs = cap_ux_def cap_plain_def cap_fmp_def cap_drv_def cap_bad_def cap_ux2_def
  cap_busy_def cap_calm_def no_capsule_def

subsection \<open>Progress reporting\<close>

lemma low_byte: "unat ((c::64 word) AND 0xFF) = unat c mod 256"
proof -
  have "(c AND 0xFF) = take_bit 8 c"
    by (simp add: take_bit_eq_mask mask_eq_exp_minus_1)
  then show ?thesis by (simp add: unsigned_take_bit_eq take_bit_eq_mod unat_mod)
qed

lemma color_bits:
  "bit ((ucast (drop_bit 8 (c::64 word) AND 0xFFFFFF)) :: 32 word) n = (n < 24 \<and> bit c (n + 8))"
proof -
  have "(drop_bit 8 c AND 0xFFFFFF) = take_bit 24 (drop_bit 8 c)"
    by (simp add: take_bit_eq_mask mask_eq_exp_minus_1)
  then show ?thesis
    by (auto simp add: bit_ucast_iff bit_take_bit_iff bit_drop_bit_eq ac_simps)
qed




text \<open>
  C10. \<open>Update_Image_Progress\<close> takes the low byte of its argument as the percentage
  (the argument modulo 256) and bits 8 to 31 as the color (bit \<open>n\<close> of the color is bit
  \<open>n + 8\<close> of the argument, for \<open>n < 24\<close>). Whenever the low byte is at most 100, whatever
  the full value, the call is accepted: it disarms the watchdog, re-arms it from the PCD
  unless the low byte is 100, calls the display delegate with the low byte and the color in
  the platform state the watchdog calls left, and returns the status of the delegate with
  the platform state of the delegate and these calls logged. Only when the low byte exceeds
  100 does it return \<open>EFI_INVALID_PARAMETER\<close>, at once and with the state untouched.
\<close>

theorem Update_Image_Progress_low_byte:
  fixes Completion :: UINTN and env :: "'w env" and st :: "'w state"
  defines "pct \<equiv> Completion AND 0xFF"
  defines "col \<equiv> (ucast (drop_bit 8 Completion AND 0xFFFFFF) :: 32 word)"
  defines "w0 \<equiv> SetWatchdogTimer env (world st) 0"
  defines "w1 \<equiv> (if pct \<noteq> 100
                   then SetWatchdogTimer env w0 (ucast (PcdCapsuleUpdateWatchdogTimeInSeconds env))
                   else w0)"
  shows "unat pct = unat Completion mod 256 \<and>
     (\<forall>n. bit col n = (n < 24 \<and> bit Completion (n + 8))) \<and>
     (if pct \<le> 100 then
        Update_Image_Progress env Completion st =
          (fst (DisplayUpdateProgress env w1 pct (Some col)),
           st\<lparr>world := snd (DisplayUpdateProgress env w1 pct (Some col)),
              calls := calls st @
                [Call_SetWatchdogTimer 0] @
                (if pct \<noteq> 100
                 then [Call_SetWatchdogTimer (ucast (PcdCapsuleUpdateWatchdogTimeInSeconds env))]
                 else []) @
                [Call_DisplayUpdateProgress pct (Some col)]\<rparr>)
      else Update_Image_Progress env Completion st = (EFI_INVALID_PARAMETER, st))"
proof -
  have lb: "unat pct = unat Completion mod 256"
    unfolding pct_def by (rule low_byte)
  have cb: "\<forall>n. bit col n = (n < 24 \<and> bit Completion (n + 8))"
    unfolding col_def by (simp add: color_bits)
  have run: "if pct \<le> 100 then
        Update_Image_Progress env Completion st =
          (fst (DisplayUpdateProgress env w1 pct (Some col)),
           st\<lparr>world := snd (DisplayUpdateProgress env w1 pct (Some col)),
              calls := calls st @
                [Call_SetWatchdogTimer 0] @
                (if pct \<noteq> 100
                 then [Call_SetWatchdogTimer (ucast (PcdCapsuleUpdateWatchdogTimeInSeconds env))]
                 else []) @
                [Call_DisplayUpdateProgress pct (Some col)]\<rparr>)
      else Update_Image_Progress env Completion st = (EFI_INVALID_PARAMETER, st)"
    unfolding pct_def col_def w0_def w1_def
    by (auto simp: Update_Image_Progress_def Let_def gBS_SetWatchdogTimer_def
          call_DisplayUpdateProgress_def split: prod.splits)
  from lb cb run show ?thesis by blast
qed

text \<open>
  306 is above 100 and its low byte is 50: the call is accepted, with color 1, and returns
  the status of the display delegate. The low byte of 356 is 100: the watchdog is not
  re-armed. The low byte of 511 is 255: the call is rejected.
\<close>

theorem Update_Image_Progress_low_byte_witness:
  "306 > (100 :: UINTN) \<and> (306 :: UINTN) AND 0xFF = 50 \<and>
   Update_Image_Progress (scenario [] []) 306 (boot_state [] None) =
     (EFI_SUCCESS,
      (boot_state [] None)
        \<lparr>calls := [Call_SetWatchdogTimer 0, Call_SetWatchdogTimer 60,
                   Call_DisplayUpdateProgress 50 (Some 1)]\<rparr>) \<and>
   Update_Image_Progress (scenario [] []) 0x164 (boot_state [] None) =
     (EFI_SUCCESS,
      (boot_state [] None)
        \<lparr>calls := [Call_SetWatchdogTimer 0, Call_DisplayUpdateProgress 100 (Some 1)]\<rparr>) \<and>
   Update_Image_Progress (scenario [] []) 0x1FF (boot_state [] None) =
     (EFI_INVALID_PARAMETER, boot_state [] None)"
  using Update_Image_Progress_low_byte [of 306 "scenario [] []" "boot_state [] None"]
    Update_Image_Progress_low_byte [of "0x164" "scenario [] []" "boot_state [] None"]
    Update_Image_Progress_low_byte [of "0x1FF" "scenario [] []" "boot_state [] None"]
  by (simp add: scenario_def boot_state_def)

subsection \<open>The dispatcher\<close>

lemma not_applied:
  "prefix (calls a) (calls b) \<Longrightarrow> events_of j (calls b) = events_of j (calls a) @ Z \<Longrightarrow>
   filter (is_apply j) Z = [] \<Longrightarrow> \<not> applied j (new_calls a b)"
  using events_of_new_calls [of a b j Z] by (simp add: applied_events_of)

lemma is_applied:
  "prefix (calls a) (calls b) \<Longrightarrow> events_of j (calls b) = events_of j (calls a) @ Z \<Longrightarrow>
   filter (is_apply j) Z \<noteq> [] \<Longrightarrow> applied j (new_calls a b)"
  using events_of_new_calls [of a b j Z] by (simp add: applied_events_of)

lemma pass_arrays_ok:
  assumes "st1 = (if fr then InitCapsulePtr env st else st)"
    "r = snd (ProcessTheseCapsules env fr st)" "arrays_ok st1"
  shows "arrays_ok r"
  using pass_frame [OF assms(1,2)] assms(3) by (simp add: arrays_ok_def)

lemmas demo_defs = demo_caps_def demo_env_def demo_boot_def

lemma demo_discovery:
  "InitCapsulePtr demo_env demo_boot =
     demo_boot\<lparr>mCapsulePtr := [0x1000, 0x2000, 0x3000, 0x4000, 0x5000],
               mCapsuleStatusArray := replicate 5 EFI_NOT_READY,
               mCapsuleTotalNumber := 5, world := 2,
               calls := [Call_AllocatePool 40 True, Call_AllocatePool 40 True]\<rparr>"
  by (simp add: demo_defs run_defs cap_defs)

text \<open>
  C7, as the code has it. Let \<open>st1\<close> be the state the dispatcher works on (after discovery
  in a first round; the entry state, with its arrays in range, otherwise). A capsule whose
  status is Pending, that does not carry the display key, and that fails the
  firmware-management probe, or passes it and fails the layout validation, has status
  \<open>EFI_ABORTED\<close> after the pass: the pass logs one store for it, from Pending to Aborted,
  and no call of the apply delegate. The outcome is terminal: a later pass
  (\<open>FirstRound = FALSE\<close>) leaves the status and logs nothing for the capsule. In both
  passes the log is a faithful record and the platform state after the pass is the one the
  logged calls give, so the delegate was not called behind the log either.
\<close>

theorem ProcessTheseCapsules_aborts_unfit:
  assumes "st1 = (if FirstRound then InitCapsulePtr env st else st)"
    and "FirstRound \<or> arrays_ok st"
    and "r = snd (ProcessTheseCapsules env FirstRound st)"
    and "r2 = snd (ProcessTheseCapsules env False r)"
    and "j < unat (mCapsuleTotalNumber st1)"
    and "mCapsuleStatusArray st1 ! j = EFI_NOT_READY"
    and "\<not> is_ux env st1 j"
    and "\<not> IsFmpCapsule env (mCapsulePtr st1 ! j) \<or>
         EFI_ERROR (fst (ValidateFmpCapsule env (mCapsulePtr st1 ! j)))"
  shows "mCapsuleStatusArray r ! j = EFI_ABORTED \<and> \<not> applied j (new_calls st1 r) \<and>
         mCapsuleStatusArray r2 ! j = EFI_ABORTED \<and> \<not> applied j (new_calls r r2) \<and>
         events_of j (new_calls st1 r) = [Store_CapsuleStatus j EFI_NOT_READY EFI_ABORTED] \<and>
         events_of j (new_calls r r2) = [] \<and>
         faithful env (world st1) (new_calls st1 r) \<and>
         world r = replay env (world st1) (new_calls st1 r) \<and>
         faithful env (world r) (new_calls r r2) \<and>
         world r2 = replay env (world r) (new_calls r r2)"
proof -
  have ok1: "arrays_ok st1"
  proof (cases FirstRound)
    case True
    with assms(1) InitCapsulePtr_facts(1) [of env st] show ?thesis by simp
  next
    case False
    with assms(1,2) show ?thesis by simp
  qed
  from pass_abort [OF assms(1) ok1 assms(3,5,6,7,8)]
  have a: "mCapsuleStatusArray r ! j = EFI_ABORTED"
    "events_of j (calls r) = events_of j (calls st1) @ [Store_CapsuleStatus j EFI_NOT_READY EFI_ABORTED]"
    by simp_all
  have n1: "\<not> applied j (new_calls st1 r)"
    by (rule not_applied [OF pass_prefix [OF assms(1,3)] a(2)]) simp
  from events_of_new_calls [OF pass_prefix [OF assms(1,3)] a(2)]
  have e1: "events_of j (new_calls st1 r) = [Store_CapsuleStatus j EFI_NOT_READY EFI_ABORTED]" .
  from pass_frame [OF assms(1,3)]
  have f: "mCapsulePtr r = mCapsulePtr st1" "mCapsuleTotalNumber r = mCapsuleTotalNumber st1"
    by simp_all
  have r': "r = (if False then InitCapsulePtr env r else r)" by simp
  have lt: "j < unat (mCapsuleTotalNumber r)" using assms(5) f by simp
  have nux: "\<not> is_ux env r j" using assms(7) f by (simp add: is_ux_def)
  then have nf: "first_ux env r \<noteq> Some j" by (simp add: first_ux_Some)
  from a(1) have "mCapsuleStatusArray r ! j \<noteq> EFI_NOT_READY \<or> is_ux env r j \<or>
     (IsFmpCapsule env (mCapsulePtr r ! j) \<and>
      \<not> EFI_ERROR (fst (ValidateFmpCapsule env (mCapsulePtr r ! j))) \<and>
      False \<and> snd (ValidateFmpCapsule env (mCapsulePtr r ! j)) \<noteq> 0)" by simp
  from pass_skip [OF r' assms(4) lt nf this]
  have b: "mCapsuleStatusArray r2 ! j = mCapsuleStatusArray r ! j"
    "events_of j (calls r2) = events_of j (calls r) @ []" by simp_all
  have n2: "\<not> applied j (new_calls r r2)"
    by (rule not_applied [OF pass_prefix [OF r' assms(4)] b(2)]) simp
  from events_of_new_calls [OF pass_prefix [OF r' assms(4)] b(2)]
  have e2: "events_of j (new_calls r r2) = []" .
  from traced_pass [OF assms(1,3)]
  have t1: "faithful env (world st1) (new_calls st1 r) \<and>
            world r = replay env (world st1) (new_calls st1 r)"
    by (simp add: traced_def)
  from traced_pass [OF r' assms(4)]
  have t2: "faithful env (world r) (new_calls r r2) \<and>
            world r2 = replay env (world r) (new_calls r r2)"
    by (simp add: traced_def)
  from a(1) n1 b(1) n2 e1 e2 t1 t2 show ?thesis by simp
qed

text \<open>
  In the scenario, capsule 1 fails the probe and capsule 4 passes it and fails the layout
  validation: both end Aborted and are never applied, in the first pass and in the next.
\<close>

theorem ProcessTheseCapsules_aborts_unfit_witness:
  "arrays_ok (InitCapsulePtr demo_env demo_boot) \<and>
   mCapsuleStatusArray (InitCapsulePtr demo_env demo_boot) ! 1 = EFI_NOT_READY \<and>
   \<not> IsFmpCapsule demo_env (mCapsulePtr (InitCapsulePtr demo_env demo_boot) ! 1) \<and>
   mCapsuleStatusArray (InitCapsulePtr demo_env demo_boot) ! 4 = EFI_NOT_READY \<and>
   IsFmpCapsule demo_env (mCapsulePtr (InitCapsulePtr demo_env demo_boot) ! 4) \<and>
   EFI_ERROR (fst (ValidateFmpCapsule demo_env (mCapsulePtr (InitCapsulePtr demo_env demo_boot) ! 4))) \<and>
   mCapsuleStatusArray (snd (ProcessTheseCapsules demo_env True demo_boot)) ! 1 = EFI_ABORTED \<and>
   \<not> applied 1 (new_calls (InitCapsulePtr demo_env demo_boot)
                  (snd (ProcessTheseCapsules demo_env True demo_boot))) \<and>
   mCapsuleStatusArray (snd (ProcessTheseCapsules demo_env True demo_boot)) ! 4 = EFI_ABORTED \<and>
   \<not> applied 4 (new_calls (InitCapsulePtr demo_env demo_boot)
                  (snd (ProcessTheseCapsules demo_env True demo_boot))) \<and>
   events_of 4 (new_calls (InitCapsulePtr demo_env demo_boot)
                  (snd (ProcessTheseCapsules demo_env True demo_boot))) =
     [Store_CapsuleStatus 4 EFI_NOT_READY EFI_ABORTED] \<and>
   \<not> applied 4 (new_calls (snd (ProcessTheseCapsules demo_env True demo_boot))
                (snd (ProcessTheseCapsules demo_env False
                       (snd (ProcessTheseCapsules demo_env True demo_boot)))))"
proof -
  let ?st1 = "InitCapsulePtr demo_env demo_boot"
  have h1: "?st1 = (if True then InitCapsulePtr demo_env demo_boot else demo_boot)" by simp
  have h2: "arrays_ok ?st1" by (simp add: demo_discovery arrays_ok_def)
  have h2': "True \<or> arrays_ok demo_boot" by simp
  have a5: "1 < unat (mCapsuleTotalNumber ?st1)" by (simp add: demo_discovery)
  have a6: "mCapsuleStatusArray ?st1 ! 1 = EFI_NOT_READY"
    by (simp add: demo_discovery replicate_numeral)
  have a7: "\<not> is_ux demo_env ?st1 1"
    by (simp add: demo_discovery is_ux_def demo_defs run_defs cap_defs)
  have a8: "\<not> IsFmpCapsule demo_env (mCapsulePtr ?st1 ! 1)"
    by (simp add: demo_discovery demo_defs run_defs cap_defs)
  have b5: "4 < unat (mCapsuleTotalNumber ?st1)" by (simp add: demo_discovery)
  have b6: "mCapsuleStatusArray ?st1 ! 4 = EFI_NOT_READY"
    by (simp add: demo_discovery replicate_numeral)
  have b7: "\<not> is_ux demo_env ?st1 4"
    by (simp add: demo_discovery is_ux_def demo_defs run_defs cap_defs)
  have b8: "IsFmpCapsule demo_env (mCapsulePtr ?st1 ! 4)"
    by (simp add: demo_discovery demo_defs run_defs cap_defs)
  have b9: "EFI_ERROR (fst (ValidateFmpCapsule demo_env (mCapsulePtr ?st1 ! 4)))"
    by (simp add: demo_discovery demo_defs run_defs cap_defs)
  from a8 have a: "\<not> IsFmpCapsule demo_env (mCapsulePtr ?st1 ! 1) \<or>
         EFI_ERROR (fst (ValidateFmpCapsule demo_env (mCapsulePtr ?st1 ! 1)))" by simp
  from b9 have b: "\<not> IsFmpCapsule demo_env (mCapsulePtr ?st1 ! 4) \<or>
         EFI_ERROR (fst (ValidateFmpCapsule demo_env (mCapsulePtr ?st1 ! 4)))" by simp
  note ra = ProcessTheseCapsules_aborts_unfit [OF h1 h2' refl refl a5 a6 a7 a]
  note rb = ProcessTheseCapsules_aborts_unfit [OF h1 h2' refl refl b5 b6 b7 b]
  from ra have ra': "mCapsuleStatusArray (snd (ProcessTheseCapsules demo_env True demo_boot)) ! 1 = EFI_ABORTED"
    "\<not> applied 1 (new_calls ?st1 (snd (ProcessTheseCapsules demo_env True demo_boot)))"
    by simp_all
  from rb have rb': "mCapsuleStatusArray (snd (ProcessTheseCapsules demo_env True demo_boot)) ! 4 = EFI_ABORTED"
    "\<not> applied 4 (new_calls ?st1 (snd (ProcessTheseCapsules demo_env True demo_boot)))"
    "events_of 4 (new_calls ?st1 (snd (ProcessTheseCapsules demo_env True demo_boot))) =
       [Store_CapsuleStatus 4 EFI_NOT_READY EFI_ABORTED]"
    "\<not> applied 4 (new_calls (snd (ProcessTheseCapsules demo_env True demo_boot))
                (snd (ProcessTheseCapsules demo_env False
                       (snd (ProcessTheseCapsules demo_env True demo_boot)))))"
    by simp_all
  from ra' rb' h2 a6 a8 b6 b8 b9 show ?thesis by blast
qed

text \<open>
  C7 as the spec states it fails: the second of two display capsules is Pending when the
  general sweep comes to it and fails the firmware-management probe, but the sweep skips
  every capsule with the display key: its status is Pending, not Aborted, after the first
  pass, and it is not Aborted after the next pass either.
\<close>

theorem ProcessTheseCapsules_aborts_unfit_counterexample:
  "mCapsuleStatusArray
     (InitCapsulePtr (scenario twin_ux []) (boot_state (hobs_of twin_ux) None)) ! 1 =
     EFI_NOT_READY \<and>
   mCapsulePtr
     (InitCapsulePtr (scenario twin_ux []) (boot_state (hobs_of twin_ux) None)) ! 1 = 0x6000 \<and>
   \<not> IsFmpCapsule (scenario twin_ux []) 0x6000 \<and>
   mCapsuleStatusArray
     (snd (ProcessTheseCapsules (scenario twin_ux []) True
            (boot_state (hobs_of twin_ux) None))) ! 1 = EFI_NOT_READY \<and>
   mCapsuleStatusArray
     (snd (ProcessTheseCapsules (scenario twin_ux []) True
            (boot_state (hobs_of twin_ux) None))) ! 1 \<noteq> EFI_ABORTED \<and>
   mCapsuleStatusArray
     (snd (ProcessTheseCapsules (scenario twin_ux []) False
            (snd (ProcessTheseCapsules (scenario twin_ux []) True
                   (boot_state (hobs_of twin_ux) None))))) ! 1 \<noteq> EFI_ABORTED"
  by (simp add: twin_ux_def run_defs cap_defs)

text \<open>
  C1, as the code has it. Let \<open>st1\<close> be the state the dispatcher works on (after discovery
  in a first round; the entry state, with its arrays in range, otherwise), and take a
  capsule whose status is Pending, that does not carry the display key, and that passes the
  firmware-management probe and the layout validation, which yields \<open>EmbeddedDriverCount\<close>.
  If \<open>FirstRound\<close> holds and the count is not zero, the pass does not call the apply
  delegate for it and leaves it Pending, and the next pass with \<open>FirstRound = FALSE\<close>
  applies it. In every other case it is applied in the same pass. Applied means: the pass
  logs for the capsule exactly one call of the delegate, with the capsule's pointer and with
  \<open>ResetRequired\<close>, then one store from Pending; the status and the reset request logged
  are what the delegate returns in the platform state the earlier calls of the pass led to,
  and that status is the one in the status array after the pass. In both passes the log is
  a faithful record and the platform state after the pass is the one the logged calls give.
\<close>

theorem ProcessTheseCapsules_deferral:
  assumes "st1 = (if FirstRound then InitCapsulePtr env st else st)"
    and "FirstRound \<or> arrays_ok st"
    and "r = snd (ProcessTheseCapsules env FirstRound st)"
    and "r2 = snd (ProcessTheseCapsules env False r)"
    and "j < unat (mCapsuleTotalNumber st1)"
    and "mCapsuleStatusArray st1 ! j = EFI_NOT_READY"
    and "\<not> is_ux env st1 j"
    and "IsFmpCapsule env (mCapsulePtr st1 ! j)"
    and "\<not> EFI_ERROR (fst (ValidateFmpCapsule env (mCapsulePtr st1 ! j)))"
    and "EmbeddedDriverCount = snd (ValidateFmpCapsule env (mCapsulePtr st1 ! j))"
  shows "faithful env (world st1) (new_calls st1 r) \<and>
         world r = replay env (world st1) (new_calls st1 r) \<and>
         faithful env (world r) (new_calls r r2) \<and>
         world r2 = replay env (world r) (new_calls r r2) \<and>
         (if FirstRound \<and> EmbeddedDriverCount \<noteq> 0
          then \<not> applied j (new_calls st1 r) \<and> mCapsuleStatusArray r ! j = EFI_NOT_READY \<and>
               applied j (new_calls r r2) \<and>
               events_of j (new_calls r r2) =
                 [Call_ProcessThisCapsuleImage j (mCapsulePtr st1 ! j) True
                    (fst (apply_result env r r2 j)) (fst (snd (apply_result env r r2 j))),
                  Store_CapsuleStatus j EFI_NOT_READY (fst (apply_result env r r2 j))] \<and>
               mCapsuleStatusArray r2 ! j = fst (apply_result env r r2 j)
          else applied j (new_calls st1 r) \<and>
               events_of j (new_calls st1 r) =
                 [Call_ProcessThisCapsuleImage j (mCapsulePtr st1 ! j) True
                    (fst (apply_result env st1 r j)) (fst (snd (apply_result env st1 r j))),
                  Store_CapsuleStatus j EFI_NOT_READY (fst (apply_result env st1 r j))] \<and>
               mCapsuleStatusArray r ! j = fst (apply_result env st1 r j))"
proof -
  have ok1: "arrays_ok st1"
  proof (cases FirstRound)
    case True
    with assms(1) InitCapsulePtr_facts(1) [of env st] show ?thesis by simp
  next
    case False
    with assms(1,2) show ?thesis by simp
  qed
  have r': "r = (if False then InitCapsulePtr env r else r)" by simp
  from traced_pass [OF assms(1,3)]
  have t1: "faithful env (world st1) (new_calls st1 r) \<and>
            world r = replay env (world st1) (new_calls st1 r)"
    by (simp add: traced_def)
  from traced_pass [OF r' assms(4)]
  have t2: "faithful env (world r) (new_calls r r2) \<and>
            world r2 = replay env (world r) (new_calls r r2)"
    by (simp add: traced_def)
  have main: "if FirstRound \<and> EmbeddedDriverCount \<noteq> 0
          then \<not> applied j (new_calls st1 r) \<and> mCapsuleStatusArray r ! j = EFI_NOT_READY \<and>
               applied j (new_calls r r2) \<and>
               events_of j (new_calls r r2) =
                 [Call_ProcessThisCapsuleImage j (mCapsulePtr st1 ! j) True
                    (fst (apply_result env r r2 j)) (fst (snd (apply_result env r r2 j))),
                  Store_CapsuleStatus j EFI_NOT_READY (fst (apply_result env r r2 j))] \<and>
               mCapsuleStatusArray r2 ! j = fst (apply_result env r r2 j)
          else applied j (new_calls st1 r) \<and>
               events_of j (new_calls st1 r) =
                 [Call_ProcessThisCapsuleImage j (mCapsulePtr st1 ! j) True
                    (fst (apply_result env st1 r j)) (fst (snd (apply_result env st1 r j))),
                  Store_CapsuleStatus j EFI_NOT_READY (fst (apply_result env st1 r j))] \<and>
               mCapsuleStatusArray r ! j = fst (apply_result env st1 r j)"
  proof (cases "FirstRound \<and> EmbeddedDriverCount \<noteq> 0")
    case True
    from assms(5,7) have nf: "first_ux env st1 \<noteq> Some j" by (simp add: first_ux_Some)
    from True assms(8,9,10) have "mCapsuleStatusArray st1 ! j \<noteq> EFI_NOT_READY \<or> is_ux env st1 j \<or>
       (IsFmpCapsule env (mCapsulePtr st1 ! j) \<and>
        \<not> EFI_ERROR (fst (ValidateFmpCapsule env (mCapsulePtr st1 ! j))) \<and>
        FirstRound \<and> snd (ValidateFmpCapsule env (mCapsulePtr st1 ! j)) \<noteq> 0)" by simp
    from pass_skip [OF assms(1,3,5) nf this] assms(6)
    have a: "mCapsuleStatusArray r ! j = EFI_NOT_READY"
      "events_of j (calls r) = events_of j (calls st1) @ []" by simp_all
    have n1: "\<not> applied j (new_calls st1 r)"
      by (rule not_applied [OF pass_prefix [OF assms(1,3)] a(2)]) simp
    from pass_frame [OF assms(1,3)]
    have f: "mCapsulePtr r = mCapsulePtr st1" "mCapsuleTotalNumber r = mCapsuleTotalNumber st1"
      by simp_all
    have ok: "arrays_ok r" by (rule pass_arrays_ok [OF assms(1,3) ok1])
    have pre: "j < unat (mCapsuleTotalNumber r)" "\<not> is_ux env r j"
      "IsFmpCapsule env (mCapsulePtr r ! j)"
      "\<not> EFI_ERROR (fst (ValidateFmpCapsule env (mCapsulePtr r ! j)))"
      "\<not> False \<or> snd (ValidateFmpCapsule env (mCapsulePtr r ! j)) = 0"
      using assms(5,7,8,9) f by (simp_all add: is_ux_def)
    from pass_applied [OF r' ok assms(4) pre(1) a(1) pre(2-5)] f(1)
    have b: "events_of j (new_calls r r2) =
                 [Call_ProcessThisCapsuleImage j (mCapsulePtr st1 ! j) True
                    (fst (apply_result env r r2 j)) (fst (snd (apply_result env r r2 j))),
                  Store_CapsuleStatus j EFI_NOT_READY (fst (apply_result env r r2 j))]"
      "mCapsuleStatusArray r2 ! j = fst (apply_result env r r2 j)"
      by simp_all
    from b(1) have n2: "applied j (new_calls r r2)"
      by (simp add: applied_events_of)
    from True a(1) n1 n2 b show ?thesis by simp
  next
    case False
    with assms(10) have "\<not> FirstRound \<or> snd (ValidateFmpCapsule env (mCapsulePtr st1 ! j)) = 0"
      by simp
    from pass_applied [OF assms(1) ok1 assms(3,5,6,7,8,9) this]
    have b: "events_of j (new_calls st1 r) =
                 [Call_ProcessThisCapsuleImage j (mCapsulePtr st1 ! j) True
                    (fst (apply_result env st1 r j)) (fst (snd (apply_result env st1 r j))),
                  Store_CapsuleStatus j EFI_NOT_READY (fst (apply_result env st1 r j))]"
      "mCapsuleStatusArray r ! j = fst (apply_result env st1 r j)"
      by simp_all
    from b(1) have "applied j (new_calls st1 r)"
      by (simp add: applied_events_of)
    with False b show ?thesis by simp
  qed
  from t1 t2 main show ?thesis by blast
qed

text \<open>What the apply delegate of the scenario returns for capsules 2 and 3.\<close>

lemma demo_delegate:
  "ProcessThisCapsuleImage demo_env w 0x3000 True = (EFI_SUCCESS, True, w)"
  "ProcessThisCapsuleImage demo_env w 0x4000 True = (EFI_VOLUME_CORRUPTED, False, w)"
  by (simp_all add: demo_defs scenario_def case_at_def cap_defs)

text \<open>
  Capsule 3 of the scenario has two embedded drivers: the first round leaves it Pending and
  unapplied, the second pass applies it and stores the delegate's \<open>EFI_VOLUME_CORRUPTED\<close>.
  Capsule 2 has none: the first round applies it and stores the delegate's \<open>EFI_SUCCESS\<close>.
\<close>

theorem ProcessTheseCapsules_deferral_witness:
  "arrays_ok (InitCapsulePtr demo_env demo_boot) \<and>
   mCapsuleStatusArray (InitCapsulePtr demo_env demo_boot) ! 3 = EFI_NOT_READY \<and>
   IsFmpCapsule demo_env (mCapsulePtr (InitCapsulePtr demo_env demo_boot) ! 3) \<and>
   ValidateFmpCapsule demo_env (mCapsulePtr (InitCapsulePtr demo_env demo_boot) ! 3) = (EFI_SUCCESS, 2) \<and>
   \<not> applied 3 (new_calls (InitCapsulePtr demo_env demo_boot)
                  (snd (ProcessTheseCapsules demo_env True demo_boot))) \<and>
   mCapsuleStatusArray (snd (ProcessTheseCapsules demo_env True demo_boot)) ! 3 = EFI_NOT_READY \<and>
   events_of 3 (new_calls (snd (ProcessTheseCapsules demo_env True demo_boot))
                (snd (ProcessTheseCapsules demo_env False
                       (snd (ProcessTheseCapsules demo_env True demo_boot))))) =
     [Call_ProcessThisCapsuleImage 3 0x4000 True EFI_VOLUME_CORRUPTED False,
      Store_CapsuleStatus 3 EFI_NOT_READY EFI_VOLUME_CORRUPTED] \<and>
   mCapsuleStatusArray (snd (ProcessTheseCapsules demo_env False
                       (snd (ProcessTheseCapsules demo_env True demo_boot)))) ! 3 =
     EFI_VOLUME_CORRUPTED \<and>
   ValidateFmpCapsule demo_env (mCapsulePtr (InitCapsulePtr demo_env demo_boot) ! 2) = (EFI_SUCCESS, 0) \<and>
   events_of 2 (new_calls (InitCapsulePtr demo_env demo_boot)
                  (snd (ProcessTheseCapsules demo_env True demo_boot))) =
     [Call_ProcessThisCapsuleImage 2 0x3000 True EFI_SUCCESS True,
      Store_CapsuleStatus 2 EFI_NOT_READY EFI_SUCCESS] \<and>
   mCapsuleStatusArray (snd (ProcessTheseCapsules demo_env True demo_boot)) ! 2 = EFI_SUCCESS"
proof -
  let ?st1 = "InitCapsulePtr demo_env demo_boot"
  let ?r = "snd (ProcessTheseCapsules demo_env True demo_boot)"
  let ?r2 = "snd (ProcessTheseCapsules demo_env False ?r)"
  have h1: "?st1 = (if True then InitCapsulePtr demo_env demo_boot else demo_boot)" by simp
  have h2: "arrays_ok ?st1" by (simp add: demo_discovery arrays_ok_def)
  have h2': "True \<or> arrays_ok demo_boot" by simp
  have p: "mCapsulePtr ?st1 ! 3 = 0x4000" "mCapsulePtr ?st1 ! 2 = 0x3000"
    by (simp_all add: demo_discovery)
  from pass_frame [OF h1 refl] have pr: "mCapsulePtr ?r = mCapsulePtr ?st1" by simp
  have h5: "3 < unat (mCapsuleTotalNumber ?st1)" by (simp add: demo_discovery)
  have h6: "mCapsuleStatusArray ?st1 ! 3 = EFI_NOT_READY"
    by (simp add: demo_discovery replicate_numeral)
  have h7: "\<not> is_ux demo_env ?st1 3"
    by (simp add: demo_discovery is_ux_def demo_defs run_defs cap_defs)
  have h8: "IsFmpCapsule demo_env (mCapsulePtr ?st1 ! 3)"
    by (simp add: demo_discovery demo_defs run_defs cap_defs)
  have v: "ValidateFmpCapsule demo_env (mCapsulePtr ?st1 ! 3) = (EFI_SUCCESS, 2)"
    by (simp add: demo_discovery demo_defs run_defs cap_defs)
  have h9: "\<not> EFI_ERROR (fst (ValidateFmpCapsule demo_env (mCapsulePtr ?st1 ! 3)))"
    by (simp add: v)
  have h10: "(2 :: 16 word) = snd (ValidateFmpCapsule demo_env (mCapsulePtr ?st1 ! 3))"
    by (simp add: v)
  have g5: "2 < unat (mCapsuleTotalNumber ?st1)" by (simp add: demo_discovery)
  have g6: "mCapsuleStatusArray ?st1 ! 2 = EFI_NOT_READY"
    by (simp add: demo_discovery replicate_numeral)
  have g7: "\<not> is_ux demo_env ?st1 2"
    by (simp add: demo_discovery is_ux_def demo_defs run_defs cap_defs)
  have g8: "IsFmpCapsule demo_env (mCapsulePtr ?st1 ! 2)"
    by (simp add: demo_discovery demo_defs run_defs cap_defs)
  have u: "ValidateFmpCapsule demo_env (mCapsulePtr ?st1 ! 2) = (EFI_SUCCESS, 0)"
    by (simp add: demo_discovery demo_defs run_defs cap_defs)
  have g9: "\<not> EFI_ERROR (fst (ValidateFmpCapsule demo_env (mCapsulePtr ?st1 ! 2)))"
    by (simp add: u)
  have g10: "(0 :: 16 word) = snd (ValidateFmpCapsule demo_env (mCapsulePtr ?st1 ! 2))"
    by (simp add: u)
  have d3: "apply_result demo_env ?r ?r2 3 =
              (EFI_VOLUME_CORRUPTED, False,
               replay demo_env (world ?r) (takeWhile (\<lambda>e. \<not> is_apply 3 e) (new_calls ?r ?r2)))"
    unfolding apply_result_def pr p by (rule demo_delegate)
  have d2: "apply_result demo_env ?st1 ?r 2 =
              (EFI_SUCCESS, True,
               replay demo_env (world ?st1) (takeWhile (\<lambda>e. \<not> is_apply 2 e) (new_calls ?st1 ?r)))"
    unfolding apply_result_def p by (rule demo_delegate)
  from ProcessTheseCapsules_deferral [OF h1 h2' refl refl h5 h6 h7 h8 h9 h10]
  have a: "\<not> applied 3 (new_calls ?st1 ?r) \<and>
     mCapsuleStatusArray ?r ! 3 = EFI_NOT_READY \<and>
     events_of 3 (new_calls ?r ?r2) =
       [Call_ProcessThisCapsuleImage 3 0x4000 True EFI_VOLUME_CORRUPTED False,
        Store_CapsuleStatus 3 EFI_NOT_READY EFI_VOLUME_CORRUPTED] \<and>
     mCapsuleStatusArray ?r2 ! 3 = EFI_VOLUME_CORRUPTED"
    by (simp add: d3 p)
  from ProcessTheseCapsules_deferral [OF h1 h2' refl refl g5 g6 g7 g8 g9 g10]
  have b: "events_of 2 (new_calls ?st1 ?r) =
       [Call_ProcessThisCapsuleImage 2 0x3000 True EFI_SUCCESS True,
        Store_CapsuleStatus 2 EFI_NOT_READY EFI_SUCCESS] \<and>
     mCapsuleStatusArray ?r ! 2 = EFI_SUCCESS"
    by (simp add: d2 p)
  from h2 h6 h8 v a u b show ?thesis by blast
qed

text \<open>
  C1 as the spec states it fails: the second capsule carries the display key, is Pending
  when the general sweep comes to it, and passes the probe and the validation with no
  embedded driver, but the sweep skips every capsule with the display key: the delegate is
  not called for it in the first pass nor in the next, and it stays Pending.
\<close>

theorem ProcessTheseCapsules_deferral_counterexample:
  "mCapsuleStatusArray
     (InitCapsulePtr (scenario keyed_fmp []) (boot_state (hobs_of keyed_fmp) None)) ! 1 =
     EFI_NOT_READY \<and>
   mCapsulePtr
     (InitCapsulePtr (scenario keyed_fmp []) (boot_state (hobs_of keyed_fmp) None)) ! 1 = 0x9000 \<and>
   IsFmpCapsule (scenario keyed_fmp []) 0x9000 \<and>
   ValidateFmpCapsule (scenario keyed_fmp []) 0x9000 = (EFI_SUCCESS, 0) \<and>
   \<not> applied 1
       (new_calls (InitCapsulePtr (scenario keyed_fmp []) (boot_state (hobs_of keyed_fmp) None))
          (snd (ProcessTheseCapsules (scenario keyed_fmp []) True
                 (boot_state (hobs_of keyed_fmp) None)))) \<and>
   mCapsuleStatusArray
     (snd (ProcessTheseCapsules (scenario keyed_fmp []) True
            (boot_state (hobs_of keyed_fmp) None))) ! 1 = EFI_NOT_READY \<and>
   \<not> applied 1
       (new_calls (snd (ProcessTheseCapsules (scenario keyed_fmp []) True
                         (boot_state (hobs_of keyed_fmp) None)))
          (snd (ProcessTheseCapsules (scenario keyed_fmp []) False
                 (snd (ProcessTheseCapsules (scenario keyed_fmp []) True
                        (boot_state (hobs_of keyed_fmp) None))))))"
  by (simp add: keyed_fmp_def run_defs cap_defs cap_ux3_def applied_def)

text \<open>
  The value \<open>ProcessTheseCapsules\<close> returns is \<open>EFI_SUCCESS\<close> on every path, and after a
  failed allocation in discovery the pass ends at once with no capsule.
\<close>

lemma pass_status: "fst (ProcessTheseCapsules env FirstRound st) = EFI_SUCCESS"
  by (simp add: ProcessTheseCapsules_def Let_def)

lemma pass_starved:
  assumes "alloc_failed (new_calls st (InitCapsulePtr env st))"
  shows "snd (ProcessTheseCapsules env True st) = InitCapsulePtr env st \<and>
         mCapsuleTotalNumber (InitCapsulePtr env st) = 0"
proof -
  from assms have z: "mCapsuleTotalNumber (InitCapsulePtr env st) = 0"
    by (rule InitCapsulePtr_facts(6))
  have "InitCapsulePtr env st = (if True then InitCapsulePtr env st else st)" by simp
  from pass_short [OF this] z show ?thesis by simp
qed

text \<open>
  C4. The header comment of \<open>ProcessTheseCapsules\<close> lists \<open>EFI_SUCCESS\<close> as "There is no
  error when processing capsules" and \<open>EFI_OUT_OF_RESOURCES\<close> as "No enough resource to
  process capsules". The code does not keep to it: with the hand-off list of the examples
  and the first allocation of discovery failing, the pass makes that one allocation, ends
  with no capsule, and returns \<open>EFI_SUCCESS\<close>, not \<open>EFI_OUT_OF_RESOURCES\<close>.
\<close>

theorem ProcessTheseCapsules_allocation_failure:
  "new_calls demo_boot (snd (ProcessTheseCapsules starved_env True demo_boot)) =
     [Call_AllocatePool 40 False] \<and>
   alloc_failed (new_calls demo_boot (snd (ProcessTheseCapsules starved_env True demo_boot))) \<and>
   mCapsuleTotalNumber (snd (ProcessTheseCapsules starved_env True demo_boot)) = 0 \<and>
   fst (ProcessTheseCapsules starved_env True demo_boot) = EFI_SUCCESS \<and>
   fst (ProcessTheseCapsules starved_env True demo_boot) \<noteq> EFI_OUT_OF_RESOURCES"
  by (simp add: starved_env_def demo_defs run_defs cap_defs alloc_failed_def)








subsection \<open>Status transitions\<close>










subsection \<open>Publishing\<close>

text \<open>The two steps of \<open>PopulateCapsuleInConfigurationTable\<close> against what they are to produce.\<close>

lemma find_step:
  "Populate_find cache g i =
     (if i < length cache then (if cache ! i = g then i else Populate_find cache g (Suc i)) else i)"
  by (subst Populate_find.simps) simp

lemma find_miss:
  "i \<le> length cache \<Longrightarrow> (Populate_find cache g i = length cache) = (g \<notin> set (drop i cache))"
proof (induction cache g i rule: Populate_find.induct)
  case (1 cache g i)
  show ?case
  proof (cases "i < length cache")
    case False
    with 1(2) show ?thesis by (subst find_step) simp
  next
    case True
    note d = Cons_nth_drop_Suc [OF True, symmetric]
    show ?thesis
    proof (cases "cache ! i = g")
      case hit: True
      with True d have "g \<in> set (drop i cache)" by (metis list.set_intros(1))
      moreover from True hit have "Populate_find cache g i = i" by (subst find_step) simp
      ultimately show ?thesis using True by simp
    next
      case miss: False
      from True miss have "Populate_find cache g i = Populate_find cache g (Suc i)"
        by (subst find_step) simp
      moreover from 1(1) [OF True miss] True
      have "(Populate_find cache g (Suc i) = length cache) = (g \<notin> set (drop (Suc i) cache))"
        by simp
      moreover from d miss have "(g \<notin> set (drop i cache)) = (g \<notin> set (drop (Suc i) cache))"
        by (metis set_ConsD list.set_intros(2))
      ultimately show ?thesis by simp
    qed
  qed
qed

lemma find_new: "(Populate_find cache g 0 = length cache) = (g \<notin> set cache)"
  using find_miss [of 0 cache g] by simp

lemma guids_step:
  "Populate_guids env st i cache =
     (if i < unat (mCapsuleTotalNumber st) then
        (if flagged env st i then
           (if identity env st i \<in> set cache
            then Populate_guids env st (Suc i) cache
            else Populate_guids env st (Suc i) (cache @ [identity env st i]))
         else Populate_guids env st (Suc i) cache)
      else cache)"
  by (subst Populate_guids.simps) (simp add: flagged_def identity_def Let_def find_new)

lemma guids_first_seen:
  "Populate_guids env st i cache =
     first_seen cache
       (map (identity env st) (filter (flagged env st) [i ..< unat (mCapsuleTotalNumber st)]))"
proof (induction "unat (mCapsuleTotalNumber st) - i" arbitrary: i cache)
  case 0
  then have "\<not> i < unat (mCapsuleTotalNumber st)" by simp
  then show ?case by (subst guids_step) (simp add: first_seen_def)
next
  case (Suc n)
  then have lt: "i < unat (mCapsuleTotalNumber st)" and n: "n = unat (mCapsuleTotalNumber st) - Suc i"
    by simp_all
  note u = upt_conv_Cons [OF lt]
  note ih = Suc(1) [OF n]
  show ?case
  proof (cases "flagged env st i")
    case False
    with lt have "Populate_guids env st i cache = Populate_guids env st (Suc i) cache"
      by (subst guids_step) simp
    with ih [of cache] False show ?thesis by (simp add: u)
  next
    case fl: True
    show ?thesis
    proof (cases "identity env st i \<in> set cache")
      case True
      with lt fl have "Populate_guids env st i cache = Populate_guids env st (Suc i) cache"
        by (subst guids_step) simp
      with ih [of cache] fl True show ?thesis by (simp add: u first_seen_def)
    next
      case False
      with lt fl have "Populate_guids env st i cache =
              Populate_guids env st (Suc i) (cache @ [identity env st i])"
        by (subst guids_step) simp
      with ih [of "cache @ [identity env st i]"] fl False show ?thesis
        by (simp add: u first_seen_def)
    qed
  qed
qed


lemma gather_step:
  "Populate_gather env st g i acc =
     (if i < unat (mCapsuleTotalNumber st) then
        (if flagged env st i \<and> identity env st i = g
         then Populate_gather env st g (Suc i) (acc @ [mCapsulePtr st ! i])
         else Populate_gather env st g (Suc i) acc)
      else acc)"
  by (subst Populate_gather.simps) (auto simp: flagged_def identity_def Let_def)

lemma gather_filter:
  "Populate_gather env st g i acc =
     acc @ map (\<lambda>k. mCapsulePtr st ! k)
             (filter (\<lambda>k. flagged env st k \<and> identity env st k = g)
                [i ..< unat (mCapsuleTotalNumber st)])"
proof (induction "unat (mCapsuleTotalNumber st) - i" arbitrary: i acc)
  case 0
  then have "\<not> i < unat (mCapsuleTotalNumber st)" by simp
  then show ?case by (subst gather_step) simp
next
  case (Suc n)
  then have lt: "i < unat (mCapsuleTotalNumber st)" and n: "n = unat (mCapsuleTotalNumber st) - Suc i"
    by simp_all
  note u = upt_conv_Cons [OF lt]
  note ih = Suc(1) [OF n]
  show ?case
  proof (cases "flagged env st i \<and> identity env st i = g")
    case True
    with lt have "Populate_gather env st g i acc =
            Populate_gather env st g (Suc i) (acc @ [mCapsulePtr st ! i])"
      by (subst gather_step) simp
    with ih [of "acc @ [mCapsulePtr st ! i]"] True show ?thesis by (simp add: u)
  next
    case False
    with lt have "Populate_gather env st g i acc = Populate_gather env st g (Suc i) acc"
      by (subst gather_step) auto
    with ih [of acc] False show ?thesis by (auto simp add: u)
  qed
qed

lemma gather_group: "Populate_gather env st g 0 [] = persist_group env st g"
  by (simp add: gather_filter persist_group_def)

lemma guids_identities: "Populate_guids env st 0 [] = persist_identities env st"
  by (simp add: guids_first_seen persist_identities_def)

lemma flagged_frame [simp]:
  "flagged env (st\<lparr>world := w\<rparr>) = flagged env st"
  "flagged env (st\<lparr>calls := c\<rparr>) = flagged env st"
  "identity env (st\<lparr>world := w\<rparr>) = identity env st"
  "identity env (st\<lparr>calls := c\<rparr>) = identity env st"
  by (simp_all add: flagged_def identity_def fun_eq_iff)

lemma persist_frame [simp]:
  "persist_group env (st\<lparr>world := w\<rparr>) = persist_group env st"
  "persist_group env (st\<lparr>calls := c\<rparr>) = persist_group env st"
  "persist_identities env (st\<lparr>world := w\<rparr>) = persist_identities env st"
  "persist_identities env (st\<lparr>calls := c\<rparr>) = persist_identities env st"
  by (simp_all add: persist_group_def persist_identities_def fun_eq_iff)

lemma entry_frame [simp]:
  "table_of env (st\<lparr>world := w\<rparr>) = table_of env st"
  "table_of env (st\<lparr>calls := c\<rparr>) = table_of env st"
  "entry env (st\<lparr>world := w\<rparr>) = entry env st"
  "entry env (st\<lparr>calls := c\<rparr>) = entry env st"
  by (simp_all add: table_of_def entry_def fun_eq_iff)

lemma install_step:
  assumes "persist_group env st g \<noteq> []"
    and "AllocatePool env (world st) (16 + (length (persist_group env st g) - 1) * 8) = (ok, w1)"
    and "InstallConfigurationTable env w1 g (table_of env st g) = (s, w2)"
  shows "Populate_install env (g # gs) st =
     Populate_install env gs
       (st\<lparr>world := (if ok then w2 else w1),
           calls := calls st @ entry env st g (ok, s)\<rparr>)"
  using assms
  by (simp add: gather_group call_AllocatePool_def Let_def table_of_def entry_def)





lemma Populate_run:
  assumes "mCapsuleTotalNumber st \<noteq> 0"
    and "AllocatePool env (world st) (8 * unat (mCapsuleTotalNumber st)) = (True, w1)"
    and "AllocatePool env w1 (16 * unat (mCapsuleTotalNumber st)) = (True, w2)"
  shows "PopulateCapsuleInConfigurationTable env st =
     Populate_install env (persist_identities env st)
       (st\<lparr>world := w2,
           calls := calls st @
             [Call_AllocatePool (8 * unat (mCapsuleTotalNumber st)) True,
              Call_AllocatePool (16 * unat (mCapsuleTotalNumber st)) True]\<rparr>)"
  using assms
  by (simp add: PopulateCapsuleInConfigurationTable_def call_AllocatePool_def guids_identities)


text \<open>
  The scenario of the examples: capsules 1 and 2 share a GUID, capsule 3 has its own, the
  display capsule and the last capsule are not flagged.
\<close>

lemma upt_5: "[0 ..< 5] = [0, 1, 2, 3, 4]"
  by (simp add: upt_rec)






text \<open>
  The same hand-off list when the table of the first GUID cannot be allocated: that GUID is
  skipped and the second is registered.
\<close>

lemma leaky_discovery:
  "InitCapsulePtr leaky_env demo_boot =
     demo_boot\<lparr>mCapsulePtr := [0x1000, 0x2000, 0x3000, 0x4000, 0x5000],
               mCapsuleStatusArray := replicate 5 EFI_NOT_READY,
               mCapsuleTotalNumber := 5, world := 2,
               calls := [Call_AllocatePool 40 True, Call_AllocatePool 40 True]\<rparr>"
  by (simp add: leaky_env_def demo_defs run_defs cap_defs)

lemma leaky_identities:
  "persist_identities leaky_env (InitCapsulePtr leaky_env demo_boot) = [0xA1, 0xA2]"
  unfolding leaky_discovery
  by (simp add: persist_identities_def first_seen_def flagged_def identity_def
        upt_5 leaky_env_def demo_defs run_defs cap_defs)

lemma leaky_groups:
  "persist_group leaky_env (InitCapsulePtr leaky_env demo_boot) 0xA1 = [0x2000, 0x3000]"
  "persist_group leaky_env (InitCapsulePtr leaky_env demo_boot) 0xA2 = [0x4000]"
  unfolding leaky_discovery
  by (simp_all add: persist_group_def flagged_def identity_def
        upt_5 leaky_env_def demo_defs run_defs cap_defs)

lemma leaky_log:
  "new_calls (InitCapsulePtr leaky_env demo_boot)
     (PopulateCapsuleInConfigurationTable leaky_env (InitCapsulePtr leaky_env demo_boot)) =
   [Call_AllocatePool 40 True, Call_AllocatePool 80 True,
    Call_AllocatePool 24 False,
    Call_AllocatePool 16 True,
    Call_InstallConfigurationTable 0xA2
      \<lparr>CapsuleArrayNumber = 1, CapsulePtr = [0x4000]\<rparr> EFI_SUCCESS]"
proof -
  let ?st1 = "InitCapsulePtr leaky_env demo_boot"
  have w: "world ?st1 = 2" and n: "mCapsuleTotalNumber ?st1 = 5"
    by (simp_all add: leaky_discovery)
  have a: "AllocatePool leaky_env w sz = (w \<noteq> 4, Suc w)" for w sz
    by (simp add: leaky_env_def scenario_def)
  have i: "InstallConfigurationTable leaky_env w g t = (EFI_SUCCESS, w)" for w g t
    by (simp add: leaky_env_def scenario_def)
  define st2 where "st2 = ?st1\<lparr>world := 4,
           calls := calls ?st1 @ [Call_AllocatePool 40 True, Call_AllocatePool 80 True]\<rparr>"
  have p: "PopulateCapsuleInConfigurationTable leaky_env ?st1 =
           Populate_install leaky_env [0xA1, 0xA2] st2"
    using Populate_run [of ?st1 leaky_env 3 4] by (simp add: n w a leaky_identities st2_def)
  define st3 where "st3 = st2\<lparr>world := 5, calls := calls st2 @ [Call_AllocatePool 24 False]\<rparr>"
  have s1: "Populate_install leaky_env [0xA1, 0xA2] st2 = Populate_install leaky_env [0xA2] st3"
    using install_step [of leaky_env st2 "0xA1" False 5 EFI_SUCCESS 5 "[0xA2]"]
    by (simp add: st2_def st3_def leaky_groups a i entry_def)
  define st4 where "st4 = st3\<lparr>world := 6, calls := calls st3 @
      [Call_AllocatePool 16 True,
       Call_InstallConfigurationTable 0xA2
         \<lparr>CapsuleArrayNumber = 1, CapsulePtr = [0x4000]\<rparr> EFI_SUCCESS]\<rparr>"
  have s2: "Populate_install leaky_env [0xA2] st3 = Populate_install leaky_env [] st4"
    using install_step [of leaky_env st3 "0xA2" True 6 EFI_SUCCESS 6 "[]"]
    by (simp add: st2_def st3_def st4_def leaky_groups a i entry_def table_of_def)
  have "PopulateCapsuleInConfigurationTable leaky_env ?st1 = st4"
    unfolding p s1 s2 by simp
  then show ?thesis
    by (simp add: st4_def st3_def st2_def new_calls_def)
qed

subsection \<open>The driving routine\<close>

text \<open>
  C9. \<open>ProcessCapsules\<close> runs one pass with \<open>FirstRound = TRUE\<close>. It does not return
  exactly when \<open>mNeedReset\<close> is set after that pass: then it calls
  \<open>ResetSystemWithSubtype\<close> with \<open>EfiResetCold\<close> and the capsule-update-complete GUID in
  the platform state the pass left, which is all it adds to what the pass did, and control
  never comes back. When the flag is not set it returns the status of the pass, which is
  \<open>EFI_SUCCESS\<close>, and leaves the state of the pass.
\<close>

theorem ProcessCapsules_policy:
  fixes env :: "'w env" and st :: "'w state"
  defines "r \<equiv> snd (ProcessTheseCapsules env True st)"
  shows "(fst (ProcessCapsules env st) = None) = mNeedReset r \<and>
   (if mNeedReset r
    then ProcessCapsules env st =
           (None,
            r\<lparr>world := ResetSystemWithSubtype env (world r) EfiResetCold
                          (gCapsuleUpdateCompleteResetGuid env),
              calls := calls r @
                [Call_ResetSystemWithSubtype EfiResetCold
                   (gCapsuleUpdateCompleteResetGuid env)]\<rparr>) \<and>
         new_calls st (snd (ProcessCapsules env st)) =
           new_calls st r @
           [Call_ResetSystemWithSubtype EfiResetCold (gCapsuleUpdateCompleteResetGuid env)]
    else ProcessCapsules env st = (Some (fst (ProcessTheseCapsules env True st)), r) \<and>
         fst (ProcessCapsules env st) = Some EFI_SUCCESS)"
proof -
  have p: "prefix (calls st) (calls r)"
  proof -
    from InitCapsulePtr_facts(4) [of env st] have "prefix (calls st) (calls (InitCapsulePtr env st))"
      by (auto simp: prefix_def)
    moreover have "prefix (calls (InitCapsulePtr env st)) (calls r)"
      unfolding r_def by (rule pass_prefix [of _ True]) simp_all
    ultimately show ?thesis by (rule prefix_order.trans)
  qed
  then obtain evs where e: "calls r = calls st @ evs" by (auto simp: prefix_def)
  have s: "fst (ProcessTheseCapsules env True st) = EFI_SUCCESS"
    by (simp add: ProcessTheseCapsules_def Let_def)
  have "ProcessCapsules env st =
     (if mNeedReset r then (None, DoResetSystem env r)
      else (Some (fst (ProcessTheseCapsules env True st)), r))"
    by (simp add: ProcessCapsules_def r_def split: prod.splits)
  then show ?thesis
    using e s by (simp add: DoResetSystem_def new_calls_def)
qed

text \<open>
  A capsule whose apply asks for a reset: \<open>ProcessCapsules\<close> does not return, and the
  reset call is the last entry of the log. A display capsule and a capsule that asks for
  nothing: it returns \<open>EFI_SUCCESS\<close> with the state of the pass.
\<close>

theorem ProcessCapsules_policy_witness:
  "mNeedReset (snd (ProcessTheseCapsules (scenario eager_caps []) True
                      (boot_state (hobs_of eager_caps) None))) \<and>
   fst (ProcessCapsules (scenario eager_caps []) (boot_state (hobs_of eager_caps) None)) = None \<and>
   calls (snd (ProcessCapsules (scenario eager_caps []) (boot_state (hobs_of eager_caps) None))) =
     calls (snd (ProcessTheseCapsules (scenario eager_caps []) True
                   (boot_state (hobs_of eager_caps) None))) @
     [Call_ResetSystemWithSubtype EfiResetCold 0x5D512714A4DF4E46B6C7BBC1D6C7B2B2] \<and>
   \<not> mNeedReset (snd (ProcessTheseCapsules (scenario calm_caps [])
                       True (boot_state (hobs_of calm_caps) None))) \<and>
   ProcessCapsules (scenario calm_caps []) (boot_state (hobs_of calm_caps) None) =
     (Some EFI_SUCCESS,
      snd (ProcessTheseCapsules (scenario calm_caps []) True
             (boot_state (hobs_of calm_caps) None)))"
proof -
  let ?e = "scenario eager_caps []" and ?se = "boot_state (hobs_of eager_caps) None"
  let ?c = "scenario calm_caps []" and ?sc = "boot_state (hobs_of calm_caps) None"
  have h1: "mNeedReset (snd (ProcessTheseCapsules ?e True ?se))"
    by (simp add: eager_caps_def run_defs cap_defs)
  have h2: "\<not> mNeedReset (snd (ProcessTheseCapsules ?c True ?sc))"
    by (simp add: calm_caps_def run_defs cap_defs)
  have g: "gCapsuleUpdateCompleteResetGuid ?e = 0x5D512714A4DF4E46B6C7BBC1D6C7B2B2"
    by (simp add: scenario_def)
  from ProcessCapsules_policy [of ?e ?se] h1
  have a: "ProcessCapsules ?e ?se =
           (None,
            (snd (ProcessTheseCapsules ?e True ?se))
              \<lparr>world := ResetSystemWithSubtype ?e (world (snd (ProcessTheseCapsules ?e True ?se)))
                          EfiResetCold (gCapsuleUpdateCompleteResetGuid ?e),
               calls := calls (snd (ProcessTheseCapsules ?e True ?se)) @
                [Call_ResetSystemWithSubtype EfiResetCold
                   (gCapsuleUpdateCompleteResetGuid ?e)]\<rparr>)"
    by simp
  have a1: "fst (ProcessCapsules ?e ?se) = None" by (simp add: a)
  have a2: "calls (snd (ProcessCapsules ?e ?se)) =
     calls (snd (ProcessTheseCapsules ?e True ?se)) @
     [Call_ResetSystemWithSubtype EfiResetCold 0x5D512714A4DF4E46B6C7BBC1D6C7B2B2]"
    by (simp add: a g)
  from ProcessCapsules_policy [of ?c ?sc] h2
  have b: "ProcessCapsules ?c ?sc = (Some EFI_SUCCESS, snd (ProcessTheseCapsules ?c True ?sc))"
    by (metis fst_conv)
  from h1 a1 a2 h2 b show ?thesis by blast
qed

end
